theory Spec2Isabelle
  imports Complex_Main "HOL-Library.Sublist" "HOL-Library.AList"
begin

unbundle bit_operations_syntax

section \<open>rpmrepo.py: the exceptions, as values\<close>

text \<open>
  Every \<^verbatim>\<open>raise\<close> of the module and every exception of a Python operation it relies on is
  a value of \<open>error\<close>; a function that can raise returns \<open>error + 'a\<close>, with \<open>Inl\<close> for
  the exception. \<open>Failure\<close> stands for whatever a collaborator (the storage backend, the
  archive reader, a library) raises.
\<close>

datatype error =
    KeyError string
  | IndexError
  | AttributeError
  | TypeError
  | RuntimeError string
  | ValueError
  | Failure string

definition ebind :: "error + 'a \<Rightarrow> ('a \<Rightarrow> error + 'b) \<Rightarrow> error + 'b" where
  "ebind m f = (case m of Inl e \<Rightarrow> Inl e | Inr x \<Rightarrow> f x)"

section \<open>Regular expressions of the \<^verbatim>\<open>re\<close> module\<close>

text \<open>
  The two patterns of the module use character classes, concatenation, \<^verbatim>\<open>?\<close>, \<^verbatim>\<open>*\<close> and
  \<^verbatim>\<open>+\<close>, between \<^verbatim>\<open>^\<close> and \<^verbatim>\<open>$\<close>. \<open>lang\<close> is the set of texts an expression
  matches in full. \<^verbatim>\<open>re.match\<close> anchors at the start of the text, and \<^verbatim>\<open>$\<close> (without
  \<^verbatim>\<open>re.MULTILINE\<close>) holds at the end of the text and also just before a line feed
  that ends the text: \<open>re_match\<close>.
\<close>

datatype rexp = Chars "char \<Rightarrow> bool" | Times rexp rexp | Opt rexp | Star rexp

inductive_set star :: "string set \<Rightarrow> string set" for A :: "string set" where
  star_nil: "[] \<in> star A"
| star_app: "u \<in> A \<Longrightarrow> v \<in> star A \<Longrightarrow> u @ v \<in> star A"

fun lang :: "rexp \<Rightarrow> string set" where
  "lang (Chars P) = {[c] | c. P c}"
| "lang (Times a b) = {u @ v | u v. u \<in> lang a \<and> v \<in> lang b}"
| "lang (Opt a) = insert [] (lang a)"
| "lang (Star a) = star (lang a)"

definition LF :: char where
  "LF = CHR 0x0A"

definition re_match :: "rexp \<Rightarrow> string \<Rightarrow> bool" where
  "re_match r s = (s \<in> lang r \<or> (\<exists>t. s = t @ [LF] \<and> t \<in> lang r))"

definition is_digit :: "char \<Rightarrow> bool" where
  "is_digit c = (c \<in> set ''0123456789'')"

definition not_dash :: "char \<Rightarrow> bool" where
  "not_dash c = (c \<noteq> CHR ''-'')"


definition lit :: "string \<Rightarrow> rexp" where
  "lit s = foldr (\<lambda>c r. Times (Chars (\<lambda>x. x = c)) r) (butlast s) (Chars (\<lambda>x. x = last s))"

text \<open>\<^verbatim>\<open>"^(\d+:)?([^-]*)-([^-]*)$"\<close>, the pattern of \<^verbatim>\<open>parse_ver_str\<close>.\<close>

definition ver_expr :: rexp where
  "ver_expr =
     Times (Opt (Times (Times (Chars is_digit) (Star (Chars is_digit))) (lit '':'')))
       (Times (Star (Chars not_dash)) (Times (lit ''-'') (Star (Chars not_dash))))"


section \<open>\<^verbatim>\<open>parse_ver_str\<close>\<close>

text \<open>
  \<open>match_ver\<close> is the run of the backtracking matcher on \<^verbatim>\<open>"^(\d+:)?([^-]*)-([^-]*)$"\<close>,
  returning the three groups. The optional group is tried first: the longest run of
  digits, then a colon. \<open>match_body\<close> is the rest of the pattern: the longest run without
  a dash, a dash, the longest run without a dash, and the end of the text. When the rest
  fails after the optional group, the matcher goes back and tries the rest from the start
  of the text, with group 1 unset. A shorter run never helps: the character after it
  would be one of the run, not the colon or dash the pattern asks for.
\<close>

definition match_body :: "string \<Rightarrow> (string \<times> string) option" where
  "match_body t =
     (let v = takeWhile not_dash t; rest = dropWhile not_dash t in
      case rest of
        [] \<Rightarrow> None
      | c # u \<Rightarrow> if dropWhile not_dash u = [] then Some (v, takeWhile not_dash u) else None)"

definition match_ver :: "string \<Rightarrow> (string option \<times> string \<times> string) option" where
  "match_ver s =
     (let d = takeWhile is_digit s; rest = dropWhile is_digit s in
      case (if d \<noteq> [] \<and> rest \<noteq> [] \<and> hd rest = CHR '':'' then match_body (tl rest) else None) of
        Some (v, r) \<Rightarrow> Some (Some (d @ '':''), v, r)
      | None \<Rightarrow> (case match_body s of Some (v, r) \<Rightarrow> Some (None, v, r) | None \<Rightarrow> None))"

definition cant_parse :: "string \<Rightarrow> error" where
  "cant_parse s =
     RuntimeError (''Can'' @ [CHR 0x27] @ ''t parse version: '' @ [CHR 0x27] @ s @ [CHR 0x27])"

text \<open>
  The argument is \<open>None\<close> for Python's \<^verbatim>\<open>None\<close>; \<^verbatim>\<open>not ver_str\<close> holds for \<^verbatim>\<open>None\<close> and
  for the empty text. \<^verbatim>\<open>match.group(1)[:-1]\<close> drops the colon.
\<close>

definition parse_ver_str ::
  "string option \<Rightarrow> error + (string option \<times> string option \<times> string option)" where
  "parse_ver_str ver_str =
     (case ver_str of
        None \<Rightarrow> Inr (None, None, None)
      | Some s \<Rightarrow>
          if s = [] then Inr (None, None, None)
          else (case match_ver s of
                  None \<Rightarrow> Inl (cant_parse s)
                | Some (g1, g2, g3) \<Rightarrow>
                    Inr (Some (case g1 of Some p \<Rightarrow> butlast p | None \<Rightarrow> ''0''),
                         Some g2, Some g3)))"

text \<open>The words of the grammar: a text without a dash, and a non-empty run of digits.\<close>

definition dash_free :: "string \<Rightarrow> bool" where
  "dash_free s = (\<forall>c \<in> set s. not_dash c)"

definition digits :: "string \<Rightarrow> bool" where
  "digits s = (s \<noteq> [] \<and> (\<forall>c \<in> set s. is_digit c))"

definition epoch_prefix :: "string \<Rightarrow> bool" where
  "epoch_prefix p = (\<exists>d. digits d \<and> p = d @ '':'')"

section \<open>The records of the index\<close>

text \<open>
  The module keeps every record as a dictionary with a fixed set of keys; each is a
  record here, its fields named after the keys (with a prefix, since several dictionaries
  share the keys \<^verbatim>\<open>name\<close>, \<^verbatim>\<open>epoch\<close>, \<^verbatim>\<open>rel\<close>, \<^verbatim>\<open>ver\<close> and \<^verbatim>\<open>files\<close>). A value that
  can be \<^verbatim>\<open>None\<close> is an \<open>option\<close>. A dictionary that grows by \<^verbatim>\<open>d[k] = v\<close> is an
  association list updated by \<open>AList.update\<close>, which replaces the value of a key already
  there and appends a new key; \<open>map_of\<close> looks a key up.
\<close>

datatype file_type = File | Dir

record file_entry =
  f_name :: "string option"
  f_type :: file_type

record version =
  v_ver :: "string option"
  v_rel :: "string option"
  v_epoch :: "string option"

type_synonym nerv = "string option \<times> string option \<times> string option \<times> string option"

type_synonym dep_nerv = "string \<times> string option \<times> string option \<times> string option"

record dep =
  d_name :: string
  d_epoch :: "string option"
  d_rel :: "string option"
  d_ver :: "string option"
  d_flags :: "string option"

record req = dep +
  d_pre :: "string option"

record format =
  fmt_license :: "string option"
  fmt_vendor :: "string option"
  fmt_group :: "string option"
  fmt_buildhost :: "string option"
  fmt_sourcerpm :: "string option"
  fmt_header_start :: "string option"
  fmt_header_end :: "string option"
  fmt_provides :: "(dep_nerv \<times> dep) list"
  fmt_requires :: "(dep_nerv \<times> req) list"
  fmt_obsoletes :: "(dep_nerv \<times> dep) list"
  fmt_files :: "file_entry list"

record primary_pkg =
  p_checksum :: "string option"
  p_name :: "string option"
  p_arch :: "string option"
  p_version :: version
  p_summary :: "string option"
  p_description :: "string option"
  p_packager :: "string option"
  p_url :: "string option"
  p_file_time :: string
  p_build_time :: string
  p_location :: string
  p_format :: format

record filelists_pkg =
  fl_pkgid :: string
  fl_name :: string
  fl_arch :: string
  fl_version :: version
  fl_files :: "file_entry list"

section \<open>The archive header and the \<^verbatim>\<open>rpmfile\<close> module\<close>

text \<open>
  The header is the dictionary the archive reader returns, keyed by tag name: a field is
  \<open>None\<close> when the key is absent. Scalar tags hold texts, the dependency and file tables
  hold lists, and the flag words and directory indexes are Python integers.
\<close>

record header =
  NAME :: "string option"
  ARCH :: "string option"
  SUMMARY :: "string option"
  DESCRIPTION :: "string option"
  PACKAGER :: "string option"
  BUILDTIME :: "string option"
  URL :: "string option"
  EPOCH :: "string option"
  RELEASE :: "string option"
  VERSION :: "string option"
  LICENSE :: "string option"
  VENDOR :: "string option"
  GROUP :: "string option"
  BUILDHOST :: "string option"
  SOURCERPM :: "string option"
  PROVIDENAME :: "string list option"
  PROVIDEVERSION :: "string list option"
  PROVIDEFLAGS :: "int list option"
  REQUIRENAME :: "string list option"
  REQUIREVERSION :: "string list option"
  REQUIREFLAGS :: "int list option"
  OBSOLETENAME :: "string list option"
  OBSOLETEVERSION :: "string list option"
  OBSOLETEFLAGS :: "int list option"
  DIRNAMES :: "string list option"
  BASENAMES :: "string list option"
  DIRINDEXES :: "int list option"

text \<open>
  The module \<^verbatim>\<open>rpmfile\<close> is imported, and its source is not part of the file: what
  \<^verbatim>\<open>rpmrepo.py\<close> uses of it is taken as a parameter. \<open>RPMSENSE_RPMLIB\<close> is the constant
  of that name, \<open>flags_to_str\<close> the function of that name, and \<open>parse_file\<close> is
  \<^verbatim>\<open>RpmInfo().parse_file\<close>, from the bytes of the archive to its header.
\<close>

record rpmfile =
  RPMSENSE_RPMLIB :: int
  flags_to_str :: "int \<Rightarrow> string option"
  parse_file :: "string \<Rightarrow> error + header"

text \<open>
  \<^verbatim>\<open>d[k]\<close> of a dictionary, \<^verbatim>\<open>d.get(k, [])\<close>, and \<^verbatim>\<open>xs[i]\<close> of a list: an index from 0
  up to the length reads from the front, one from -1 down to minus the length reads from
  the back, and any other raises IndexError.
\<close>

definition item :: "string \<Rightarrow> 'a option \<Rightarrow> error + 'a" where
  "item k v = (case v of None \<Rightarrow> Inl (KeyError k) | Some x \<Rightarrow> Inr x)"

definition get_list :: "'a list option \<Rightarrow> 'a list" where
  "get_list v = (case v of None \<Rightarrow> [] | Some xs \<Rightarrow> xs)"

definition py_index :: "'a list \<Rightarrow> int \<Rightarrow> error + 'a" where
  "py_index xs i =
     (if 0 \<le> i \<and> i < int (length xs) then Inr (xs ! nat i)
      else if i < 0 \<and> - int (length xs) \<le> i then Inr (xs ! nat (int (length xs) + i))
      else Inl IndexError)"

text \<open>\<^verbatim>\<open>zip(a, b, c)\<close>: triples, as many as the shortest list has.\<close>

definition zip3 :: "'a list \<Rightarrow> 'b list \<Rightarrow> 'c list \<Rightarrow> ('a \<times> 'b \<times> 'c) list" where
  "zip3 a b c = zip a (zip b c)"

text \<open>
  The modification time is a Python number. It is a rational here: every finite float
  and every integer is one, and \<^verbatim>\<open>==\<close> on numbers is equality of their values.
  \<^verbatim>\<open>int(m)\<close> drops the fraction (towards zero), \<^verbatim>\<open>str\<close> of an integer is its decimal
  numeral.
\<close>

definition py_int :: "rat \<Rightarrow> int" where
  "py_int m = (if m < 0 then \<lceil>m\<rceil> else \<lfloor>m\<rfloor>)"

fun str_nat :: "nat \<Rightarrow> string" where
  "str_nat n =
     (if n < 10 then [''0123456789'' ! n]
      else str_nat (n div 10) @ [''0123456789'' ! (n mod 10)])"

text \<open>The equation of \<open>str_nat\<close> is applied by name, not by the simplifier on its own.\<close>

declare str_nat.simps [simp del]

definition py_str :: "int \<Rightarrow> string" where
  "py_str i = (if i < 0 then CHR ''-'' # str_nat (nat (- i)) else str_nat (nat i))"

section \<open>\<^verbatim>\<open>header_to_filelists\<close> and \<^verbatim>\<open>header_to_primary\<close>\<close>

text \<open>
  The manifest, built by the same statements in both functions (lines 295 to 302 and
  414 to 421): a file entry for each pair of \<^verbatim>\<open>zip(basenames, dirindexes)\<close>, its
  directory looked up by \<^verbatim>\<open>dirnames[entry[1]]\<close>, then a directory entry for each of
  \<^verbatim>\<open>dirnames\<close>.
\<close>

fun file_loop ::
  "string list \<Rightarrow> (string \<times> int) list \<Rightarrow> file_entry list \<Rightarrow> error + file_entry list" where
  "file_loop dirnames [] files = Inr files"
| "file_loop dirnames (entry # entries) files =
     (case py_index dirnames (snd entry) of
        Inl e \<Rightarrow> Inl e
      | Inr dirname \<Rightarrow>
          file_loop dirnames entries
            (files @ [\<lparr>f_name = Some (dirname @ fst entry), f_type = File\<rparr>]))"

fun dir_loop :: "string list \<Rightarrow> file_entry list \<Rightarrow> file_entry list" where
  "dir_loop [] files = files"
| "dir_loop (dirname # dirnames) files =
     dir_loop dirnames (files @ [\<lparr>f_name = Some dirname, f_type = Dir\<rparr>])"

definition header_files :: "header \<Rightarrow> error + file_entry list" where
  "header_files header =
     ebind (item ''DIRNAMES'' (DIRNAMES header)) (\<lambda>dirnames.
     ebind (item ''BASENAMES'' (BASENAMES header)) (\<lambda>basenames.
     ebind (item ''DIRINDEXES'' (DIRINDEXES header)) (\<lambda>dirindexes.
     ebind (file_loop dirnames (zip basenames dirindexes) []) (\<lambda>files.
     Inr (dir_loop dirnames files)))))"

definition header_to_filelists :: "header \<Rightarrow> string \<Rightarrow> error + (nerv \<times> filelists_pkg)" where
  "header_to_filelists header sha256 =
     (let pkgid = sha256 in
      ebind (item ''NAME'' (NAME header)) (\<lambda>name.
      ebind (item ''ARCH'' (ARCH header)) (\<lambda>arch.
      let epoch = EPOCH header; rel = RELEASE header in
      ebind (item ''VERSION'' (VERSION header)) (\<lambda>ver.
      let version = \<lparr>v_ver = Some ver, v_rel = rel, v_epoch = epoch\<rparr> in
      ebind (header_files header) (\<lambda>files.
      let package = \<lparr>fl_pkgid = pkgid, fl_name = name, fl_arch = arch,
                       fl_version = version, fl_files = files\<rparr>;
          nerv = (Some name, v_epoch version, v_rel version, v_ver version)
      in Inr (nerv, package))))))"

text \<open>
  The three dependency loops. \<^verbatim>\<open>parse_ver_str\<close> returns (epoch, ver, rel) and the key is
  (name, epoch, rel, ver). The loops over the provides and the obsoletes tables are the
  same statements; the one over the requires table skips an entry whose flag word has a
  bit of \<^verbatim>\<open>rpmfile.RPMSENSE_RPMLIB\<close>, after its version has been parsed, and sets
  \<^verbatim>\<open>pre\<close> from the bits of 4352.
\<close>

fun provides_loop ::
  "rpmfile \<Rightarrow> (string \<times> string \<times> int) list \<Rightarrow> (dep_nerv \<times> dep) list
     \<Rightarrow> error + (dep_nerv \<times> dep) list" where
  "provides_loop rf [] provides_dict = Inr provides_dict"
| "provides_loop rf (entry # entries) provides_dict =
     (case parse_ver_str (Some (fst (snd entry))) of
        Inl e \<Rightarrow> Inl e
      | Inr (provides_epoch, provides_ver, provides_rel) \<Rightarrow>
          (let provides_name = fst entry;
               provides_flags = flags_to_str rf (snd (snd entry));
               nerv = (provides_name, provides_epoch, provides_rel, provides_ver)
           in provides_loop rf entries
                (AList.update nerv
                   \<lparr>d_name = provides_name, d_epoch = provides_epoch, d_rel = provides_rel,
                    d_ver = provides_ver, d_flags = provides_flags\<rparr>
                   provides_dict)))"

definition obsoletes_loop ::
  "rpmfile \<Rightarrow> (string \<times> string \<times> int) list \<Rightarrow> (dep_nerv \<times> dep) list
     \<Rightarrow> error + (dep_nerv \<times> dep) list" where
  "obsoletes_loop = provides_loop"

fun requires_loop ::
  "rpmfile \<Rightarrow> (string \<times> string \<times> int) list \<Rightarrow> (dep_nerv \<times> req) list
     \<Rightarrow> error + (dep_nerv \<times> req) list" where
  "requires_loop rf [] requires_dict = Inr requires_dict"
| "requires_loop rf (entry # entries) requires_dict =
     (case parse_ver_str (Some (fst (snd entry))) of
        Inl e \<Rightarrow> Inl e
      | Inr (requires_epoch, requires_ver, requires_rel) \<Rightarrow>
          (let requires_name = fst entry;
               requires_flags = flags_to_str rf (snd (snd entry))
           in if snd (snd entry) AND RPMSENSE_RPMLIB rf \<noteq> 0
              then requires_loop rf entries requires_dict
              else
                (let pre = (if snd (snd entry) AND 4352 \<noteq> 0 then Some ''1'' else None);
                     nerv = (requires_name, requires_epoch, requires_rel, requires_ver)
                 in requires_loop rf entries
                      (AList.update nerv
                         \<lparr>d_name = requires_name, d_epoch = requires_epoch,
                          d_rel = requires_rel, d_ver = requires_ver,
                          d_flags = requires_flags, d_pre = pre\<rparr>
                         requires_dict))))"

definition header_to_primary ::
  "rpmfile \<Rightarrow> header \<Rightarrow> string \<Rightarrow> rat \<Rightarrow> string \<Rightarrow> error + (nerv \<times> primary_pkg)" where
  "header_to_primary rf header sha256 mtime location =
     ebind (item ''NAME'' (NAME header)) (\<lambda>name.
     ebind (item ''ARCH'' (ARCH header)) (\<lambda>arch.
     ebind (item ''SUMMARY'' (SUMMARY header)) (\<lambda>summary.
     ebind (item ''DESCRIPTION'' (DESCRIPTION header)) (\<lambda>description.
     let packager = PACKAGER header in
     ebind (item ''BUILDTIME'' (BUILDTIME header)) (\<lambda>build_time.
     ebind (item ''URL'' (URL header)) (\<lambda>url.
     let epoch = EPOCH header; rel = RELEASE header in
     ebind (item ''VERSION'' (VERSION header)) (\<lambda>ver.
     let version = \<lparr>v_ver = Some ver, v_rel = rel, v_epoch = epoch\<rparr> in
     ebind (provides_loop rf
              (zip3 (get_list (PROVIDENAME header)) (get_list (PROVIDEVERSION header))
                 (get_list (PROVIDEFLAGS header))) []) (\<lambda>provides_dict.
     ebind (requires_loop rf
              (zip3 (get_list (REQUIRENAME header)) (get_list (REQUIREVERSION header))
                 (get_list (REQUIREFLAGS header))) []) (\<lambda>requires_dict.
     ebind (obsoletes_loop rf
              (zip3 (get_list (OBSOLETENAME header)) (get_list (OBSOLETEVERSION header))
                 (get_list (OBSOLETEFLAGS header))) []) (\<lambda>obsoletes_dict.
     ebind (header_files header) (\<lambda>files.
     let format_dict =
           \<lparr>fmt_license = LICENSE header, fmt_vendor = VENDOR header,
            fmt_group = GROUP header, fmt_buildhost = BUILDHOST header,
            fmt_sourcerpm = SOURCERPM header,
            fmt_header_start = None, fmt_header_end = None,
            fmt_provides = provides_dict, fmt_requires = requires_dict,
            fmt_obsoletes = obsoletes_dict, fmt_files = files\<rparr>;
         package =
           \<lparr>p_checksum = Some sha256, p_name = Some name, p_arch = Some arch,
            p_version = version, p_summary = Some summary,
            p_description = Some description, p_packager = packager,
            p_url = Some url, p_file_time = py_str (py_int mtime),
            p_build_time = build_time, p_location = location, p_format = format_dict\<rparr>;
         nerv = (Some name, v_epoch version, v_rel version, v_ver version)
     in Inr (nerv, package))))))))))))"

section \<open>The documents: \<^verbatim>\<open>parse_repomd\<close>, \<^verbatim>\<open>parse_filelists\<close>, \<^verbatim>\<open>parse_primary\<close>\<close>

text \<open>
  An element of \<^verbatim>\<open>xml.etree.ElementTree\<close>: its tag (a name in a namespace reads
  \<^verbatim>\<open>{namespace}name\<close>), its attributes, its text (\<^verbatim>\<open>None\<close> when there is none) and its
  child elements. \<^verbatim>\<open>find\<close> with a one-step path is the first child of that tag, or
  \<^verbatim>\<open>None\<close>; \<^verbatim>\<open>findall\<close> is all of them; iterating an element yields its children.
  Reading \<^verbatim>\<open>.text\<close> or \<^verbatim>\<open>.attrib\<close> of \<^verbatim>\<open>None\<close> raises AttributeError, and a missing
  attribute raises KeyError.
\<close>

datatype element =
  Element (el_tag: string) (el_attrib: "(string \<times> string) list") (el_text: "string option")
    (el_children: "element list")

definition qname :: "string \<Rightarrow> string \<Rightarrow> string" where
  "qname ns local = ''{'' @ ns @ ''}'' @ local"

definition ns_repo :: string where
  "ns_repo = ''http://linux.duke.edu/metadata/repo''"

definition ns_filelists :: string where
  "ns_filelists = ''http://linux.duke.edu/metadata/filelists''"

definition ns_primary :: string where
  "ns_primary = ''http://linux.duke.edu/metadata/common''"

definition ns_rpm :: string where
  "ns_rpm = ''http://linux.duke.edu/metadata/rpm''"

definition find_el :: "string \<Rightarrow> element \<Rightarrow> element option" where
  "find_el t e = List.find (\<lambda>c. el_tag c = t) (el_children e)"

definition findall :: "string \<Rightarrow> element \<Rightarrow> element list" where
  "findall t e = filter (\<lambda>c. el_tag c = t) (el_children e)"

definition text_of :: "element option \<Rightarrow> error + string option" where
  "text_of e = (case e of None \<Rightarrow> Inl AttributeError | Some x \<Rightarrow> Inr (el_text x))"

definition attrib_of :: "element option \<Rightarrow> string \<Rightarrow> error + string" where
  "attrib_of e k =
     (case e of None \<Rightarrow> Inl AttributeError | Some x \<Rightarrow> item k (map_of (el_attrib x) k))"

text \<open>
  What the module takes from Python and its libraries, as parameters:
  \<^verbatim>\<open>ET.fromstring\<close>; the decompression \<^verbatim>\<open>gunzip_string\<close> wraps; \<^verbatim>\<open>float\<close> of a text;
  the digest of a file's bytes that \<^verbatim>\<open>file_checksum\<close> computes; and the order in which
  a \<^verbatim>\<open>for\<close> loop runs through a set, given the elements in the order they were added.
\<close>

record pylib =
  fromstring :: "string \<Rightarrow> error + element"
  gzip_read :: "string \<Rightarrow> error + string"
  py_float :: "string \<Rightarrow> error + rat"
  hexdigest :: "string \<Rightarrow> string \<Rightarrow> error + string"
  set_order :: "(string \<times> rat) list \<Rightarrow> (string \<times> rat) list"

definition gunzip_string :: "pylib \<Rightarrow> string \<Rightarrow> error + string" where
  "gunzip_string lib data = gzip_read lib data"

definition file_checksum :: "pylib \<Rightarrow> string \<Rightarrow> string \<Rightarrow> error + string" where
  "file_checksum lib content checksum_type = hexdigest lib checksum_type content"

record repomd_data =
  rd_checksum :: "string option"
  rd_open_checksum :: "string option"
  rd_timestamp :: "string option"
  rd_size :: "string option"
  rd_open_size :: "string option"
  rd_location :: string

text \<open>The body of the loop of \<^verbatim>\<open>parse_repomd\<close> that fills \<^verbatim>\<open>result\<close> (lines 72 to 76).\<close>

definition repomd_result :: "element \<Rightarrow> error + repomd_data" where
  "repomd_result child =
     ebind (text_of (find_el (qname ns_repo ''checksum'') child)) (\<lambda>checksum.
     ebind (text_of (find_el (qname ns_repo ''open-checksum'') child)) (\<lambda>open_checksum.
     ebind (text_of (find_el (qname ns_repo ''timestamp'') child)) (\<lambda>timestamp.
     ebind (text_of (find_el (qname ns_repo ''size'') child)) (\<lambda>size.
     ebind (text_of (find_el (qname ns_repo ''open-size'') child)) (\<lambda>open_size.
     ebind (attrib_of (find_el (qname ns_repo ''location'') child) ''href'') (\<lambda>location.
     Inr \<lparr>rd_checksum = checksum, rd_open_checksum = open_checksum,
          rd_timestamp = timestamp, rd_size = size, rd_open_size = open_size,
          rd_location = location\<rparr>))))))"

fun repomd_loop ::
  "element list \<Rightarrow> repomd_data option \<times> repomd_data option
     \<Rightarrow> error + (repomd_data option \<times> repomd_data option)" where
  "repomd_loop [] acc = Inr acc"
| "repomd_loop (child # rest) (filelists, primary) =
     (if map_of (el_attrib child) ''type'' = None then repomd_loop rest (filelists, primary)
      else
        (case repomd_result child of
           Inl e \<Rightarrow> Inl e
         | Inr result \<Rightarrow>
             if map_of (el_attrib child) ''type'' = Some ''filelists''
             then repomd_loop rest (Some result, primary)
             else if map_of (el_attrib child) ''type'' = Some ''primary''
             then repomd_loop rest (filelists, Some result)
             else repomd_loop rest (filelists, primary)))"

definition parse_repomd ::
  "pylib \<Rightarrow> string \<Rightarrow> error + (repomd_data option \<times> repomd_data option)" where
  "parse_repomd lib data =
     ebind (fromstring lib data) (\<lambda>root. repomd_loop (el_children root) (None, None))"

text \<open>The file nodes of a package, in \<^verbatim>\<open>parse_filelists\<close> and in \<^verbatim>\<open>parse_primary\<close>.\<close>

definition file_node :: "element \<Rightarrow> file_entry" where
  "file_node node =
     (let file_name = el_text node;
          file_type = (if map_of (el_attrib node) ''type'' = Some ''dir'' then Dir else File)
      in \<lparr>f_name = file_name, f_type = file_type\<rparr>)"

definition version_of :: "element option \<Rightarrow> error + version" where
  "version_of version =
     ebind (attrib_of version ''ver'') (\<lambda>ver.
     ebind (attrib_of version ''rel'') (\<lambda>rel.
     ebind (attrib_of version ''epoch'') (\<lambda>epoch.
     Inr \<lparr>v_ver = Some ver, v_rel = Some rel, v_epoch = Some epoch\<rparr>)))"

definition filelists_package :: "element \<Rightarrow> error + (nerv \<times> filelists_pkg)" where
  "filelists_package child =
     ebind (item ''pkgid'' (map_of (el_attrib child) ''pkgid'')) (\<lambda>pkgid.
     ebind (item ''name'' (map_of (el_attrib child) ''name'')) (\<lambda>name.
     ebind (item ''arch'' (map_of (el_attrib child) ''arch'')) (\<lambda>arch.
     ebind (version_of (find_el (qname ns_filelists ''version'') child)) (\<lambda>version.
     let files = map file_node (findall (qname ns_filelists ''file'') child);
         package = \<lparr>fl_pkgid = pkgid, fl_name = name, fl_arch = arch,
                     fl_version = version, fl_files = files\<rparr>;
         nerv = (Some name, v_epoch version, v_rel version, v_ver version)
     in Inr (nerv, package)))))"

fun filelists_loop ::
  "element list \<Rightarrow> (nerv \<times> filelists_pkg) list \<Rightarrow> error + (nerv \<times> filelists_pkg) list" where
  "filelists_loop [] packages = Inr packages"
| "filelists_loop (child # rest) packages =
     (if \<not> suffix ''}package'' (el_tag child) then filelists_loop rest packages
      else
        (case filelists_package child of
           Inl e \<Rightarrow> Inl e
         | Inr (nerv, package) \<Rightarrow> filelists_loop rest (AList.update nerv package packages)))"

definition parse_filelists :: "pylib \<Rightarrow> string \<Rightarrow> error + (nerv \<times> filelists_pkg) list" where
  "parse_filelists lib data =
     ebind (fromstring lib data) (\<lambda>root. filelists_loop (el_children root) [])"

text \<open>
  The dependency blocks of \<^verbatim>\<open>parse_primary\<close>: \<^verbatim>\<open>entry.attrib['name']\<close> is required, the
  other attributes are read with \<^verbatim>\<open>attrib.get(k, None)\<close>. A block that is absent is the
  empty list. The loops over the provides and the obsoletes blocks are the same
  statements.
\<close>

definition deref :: "element option \<Rightarrow> error + element" where
  "deref e = (case e of None \<Rightarrow> Inl AttributeError | Some x \<Rightarrow> Inr x)"

definition block_entries :: "element option \<Rightarrow> element list" where
  "block_entries block = (case block of None \<Rightarrow> [] | Some b \<Rightarrow> el_children b)"

fun xml_provides_loop ::
  "element list \<Rightarrow> (dep_nerv \<times> dep) list \<Rightarrow> error + (dep_nerv \<times> dep) list" where
  "xml_provides_loop [] provides_dict = Inr provides_dict"
| "xml_provides_loop (entry # entries) provides_dict =
     (case item ''name'' (map_of (el_attrib entry) ''name'') of
        Inl e \<Rightarrow> Inl e
      | Inr provides_name \<Rightarrow>
          (let provides_epoch = map_of (el_attrib entry) ''epoch'';
               provides_rel = map_of (el_attrib entry) ''rel'';
               provides_ver = map_of (el_attrib entry) ''ver'';
               provides_flags = map_of (el_attrib entry) ''flags'';
               nerv = (provides_name, provides_epoch, provides_rel, provides_ver)
           in xml_provides_loop entries
                (AList.update nerv
                   \<lparr>d_name = provides_name, d_epoch = provides_epoch, d_rel = provides_rel,
                    d_ver = provides_ver, d_flags = provides_flags\<rparr>
                   provides_dict)))"

definition xml_obsoletes_loop ::
  "element list \<Rightarrow> (dep_nerv \<times> dep) list \<Rightarrow> error + (dep_nerv \<times> dep) list" where
  "xml_obsoletes_loop = xml_provides_loop"

fun xml_requires_loop ::
  "element list \<Rightarrow> (dep_nerv \<times> req) list \<Rightarrow> error + (dep_nerv \<times> req) list" where
  "xml_requires_loop [] requires_dict = Inr requires_dict"
| "xml_requires_loop (entry # entries) requires_dict =
     (case item ''name'' (map_of (el_attrib entry) ''name'') of
        Inl e \<Rightarrow> Inl e
      | Inr requires_name \<Rightarrow>
          (let requires_epoch = map_of (el_attrib entry) ''epoch'';
               requires_rel = map_of (el_attrib entry) ''rel'';
               requires_ver = map_of (el_attrib entry) ''ver'';
               requires_flags = map_of (el_attrib entry) ''flags'';
               requires_pre = map_of (el_attrib entry) ''pre'';
               nerv = (requires_name, requires_epoch, requires_rel, requires_ver)
           in xml_requires_loop entries
                (AList.update nerv
                   \<lparr>d_name = requires_name, d_epoch = requires_epoch, d_rel = requires_rel,
                    d_ver = requires_ver, d_flags = requires_flags, d_pre = requires_pre\<rparr>
                   requires_dict)))"

definition primary_package :: "element \<Rightarrow> error + (nerv \<times> primary_pkg)" where
  "primary_package child =
     ebind (text_of (find_el (qname ns_primary ''checksum'') child)) (\<lambda>checksum.
     ebind (text_of (find_el (qname ns_primary ''name'') child)) (\<lambda>name.
     ebind (text_of (find_el (qname ns_primary ''arch'') child)) (\<lambda>arch.
     ebind (text_of (find_el (qname ns_primary ''summary'') child)) (\<lambda>summary.
     ebind (text_of (find_el (qname ns_primary ''description'') child)) (\<lambda>description.
     ebind (text_of (find_el (qname ns_primary ''packager'') child)) (\<lambda>packager.
     ebind (text_of (find_el (qname ns_primary ''url'') child)) (\<lambda>url.
     let time = find_el (qname ns_primary ''time'') child in
     ebind (attrib_of time ''file'') (\<lambda>file_time.
     ebind (attrib_of time ''build'') (\<lambda>build_time.
     ebind (attrib_of (find_el (qname ns_primary ''location'') child) ''href'') (\<lambda>location.
     ebind (version_of (find_el (qname ns_primary ''version'') child)) (\<lambda>version.
     ebind (deref (find_el (qname ns_primary ''format'') child)) (\<lambda>fmt.
     ebind (text_of (find_el (qname ns_rpm ''license'') fmt)) (\<lambda>format_license.
     ebind (text_of (find_el (qname ns_rpm ''vendor'') fmt)) (\<lambda>format_vendor.
     ebind (text_of (find_el (qname ns_rpm ''group'') fmt)) (\<lambda>format_group.
     ebind (text_of (find_el (qname ns_rpm ''buildhost'') fmt)) (\<lambda>format_buildhost.
     ebind (text_of (find_el (qname ns_rpm ''sourcerpm'') fmt)) (\<lambda>format_sourcerpm.
     let header_range = find_el (qname ns_rpm ''header-range'') fmt in
     ebind (attrib_of header_range ''start'') (\<lambda>format_header_start.
     ebind (attrib_of header_range ''end'') (\<lambda>format_header_end.
     ebind (xml_provides_loop (block_entries (find_el (qname ns_rpm ''provides'') fmt)) [])
       (\<lambda>provides_dict.
     ebind (xml_requires_loop (block_entries (find_el (qname ns_rpm ''requires'') fmt)) [])
       (\<lambda>requires_dict.
     ebind (xml_obsoletes_loop (block_entries (find_el (qname ns_rpm ''obsoletes'') fmt)) [])
       (\<lambda>obsoletes_dict.
     let files = map file_node (findall (qname ns_primary ''file'') fmt);
         format_dict =
           \<lparr>fmt_license = format_license, fmt_vendor = format_vendor,
            fmt_group = format_group, fmt_buildhost = format_buildhost,
            fmt_sourcerpm = format_sourcerpm,
            fmt_header_start = Some format_header_start,
            fmt_header_end = Some format_header_end,
            fmt_provides = provides_dict, fmt_requires = requires_dict,
            fmt_obsoletes = obsoletes_dict, fmt_files = files\<rparr>;
         package =
           \<lparr>p_checksum = checksum, p_name = name, p_arch = arch,
            p_version = version, p_summary = summary,
            p_description = description, p_packager = packager,
            p_url = url, p_file_time = file_time,
            p_build_time = build_time, p_location = location, p_format = format_dict\<rparr>;
         nerv = (name, v_epoch version, v_rel version, v_ver version)
     in Inr (nerv, package)))))))))))))))))))))))"

fun primary_loop ::
  "element list \<Rightarrow> (nerv \<times> primary_pkg) list \<Rightarrow> error + (nerv \<times> primary_pkg) list" where
  "primary_loop [] packages = Inr packages"
| "primary_loop (child # rest) packages =
     (if \<not> suffix ''}package'' (el_tag child) then primary_loop rest packages
      else
        (case primary_package child of
           Inl e \<Rightarrow> Inl e
         | Inr (nerv, package) \<Rightarrow> primary_loop rest (AList.update nerv package packages)))"

definition parse_primary :: "pylib \<Rightarrow> string \<Rightarrow> error + (nerv \<times> primary_pkg) list" where
  "parse_primary lib data =
     ebind (fromstring lib data) (\<lambda>root. primary_loop (el_children root) [])"

section \<open>\<^verbatim>\<open>update_repo\<close>\<close>

text \<open>
  The storage object, by the methods \<^verbatim>\<open>update_repo\<close> calls; each can raise, and
  \<^verbatim>\<open>download_file\<close> returns the bytes it writes to the local file. The run reads the
  storage and never writes to it.
\<close>

record storage =
  st_exists :: "string \<Rightarrow> bool"
  st_read_file :: "string \<Rightarrow> error + string"
  st_files :: "string \<Rightarrow> error + string list"
  st_mtime :: "string \<Rightarrow> error + rat"
  st_download_file :: "string \<Rightarrow> error + string"

text \<open>
  What the run changes outside its own variables: the scratch directories
  \<^verbatim>\<open>tempfile.mkdtemp\<close> has created and \<^verbatim>\<open>shutil.rmtree\<close> has not yet removed (each a
  fresh number), and the lines printed.
\<close>

record world =
  next_tmp :: nat
  tmpdirs :: "nat list"
  stdout :: "string list"

definition mkdtemp :: "world \<Rightarrow> nat \<times> world" where
  "mkdtemp w = (next_tmp w, w\<lparr>next_tmp := Suc (next_tmp w), tmpdirs := tmpdirs w @ [next_tmp w]\<rparr>)"

definition rmtree :: "nat \<Rightarrow> world \<Rightarrow> world" where
  "rmtree d w = w\<lparr>tmpdirs := removeAll d (tmpdirs w)\<rparr>"

definition print :: "string \<Rightarrow> world \<Rightarrow> world" where
  "print line w = w\<lparr>stdout := stdout w @ [line]\<rparr>"

text \<open>Lines 450 to 459: the index as loaded, or two empty dictionaries.\<close>

definition location_of :: "repomd_data option \<Rightarrow> error + string" where
  "location_of d = (case d of None \<Rightarrow> Inl TypeError | Some r \<Rightarrow> Inr (rd_location r))"

definition load_index ::
  "storage \<Rightarrow> pylib \<Rightarrow> error + ((nerv \<times> filelists_pkg) list \<times> (nerv \<times> primary_pkg) list)" where
  "load_index st lib =
     (if st_exists st ''repodata/repomd.xml'' then
        ebind (st_read_file st ''repodata/repomd.xml'') (\<lambda>data.
        ebind (parse_repomd lib data) (\<lambda>(filelists, primary).
        ebind (location_of filelists) (\<lambda>filelists_location.
        ebind (st_read_file st filelists_location) (\<lambda>data.
        ebind (gunzip_string lib data) (\<lambda>unzipped.
        ebind (parse_filelists lib unzipped) (\<lambda>filelists.
        ebind (location_of primary) (\<lambda>primary_location.
        ebind (st_read_file st primary_location) (\<lambda>data.
        ebind (gunzip_string lib data) (\<lambda>unzipped.
        ebind (parse_primary lib unzipped) (\<lambda>primary.
        Inr (filelists, primary)))))))))))
      else Inr ([], []))"

text \<open>
  Lines 461 to 477. A Python set is the list of its elements without repetition, in the
  order they were added; \<^verbatim>\<open>primary.values()\<close> is the list of the values of the
  dictionary. \<open>rpm_match\<close> is \<^verbatim>\<open>re.match("^.*\.rpm$", file_path)\<close>: the text, less a line
  feed that ends it, ends with \<^verbatim>\<open>.rpm\<close>, and has no line feed before that.
\<close>

definition set_add :: "'a \<Rightarrow> 'a list \<Rightarrow> 'a list" where
  "set_add x xs = (if x \<in> set xs then xs else xs @ [x])"

fun recorded_loop ::
  "pylib \<Rightarrow> primary_pkg list \<Rightarrow> (string \<times> rat) list \<Rightarrow> error + (string \<times> rat) list" where
  "recorded_loop lib [] recorded_files = Inr recorded_files"
| "recorded_loop lib (package # rest) recorded_files =
     (case py_float lib (p_file_time package) of
        Inl e \<Rightarrow> Inl e
      | Inr t \<Rightarrow> recorded_loop lib rest (set_add (p_location package, t) recorded_files))"

definition rpm_match :: "string \<Rightarrow> bool" where
  "rpm_match file_path =
     (let t = (if file_path \<noteq> [] \<and> last file_path = LF then butlast file_path else file_path)
      in 4 \<le> length t \<and> drop (length t - 4) t = ''.rpm'' \<and> LF \<notin> set (take (length t - 4) t))"

fun existing_loop ::
  "storage \<Rightarrow> string list \<Rightarrow> (string \<times> rat) list \<Rightarrow> error + (string \<times> rat) list" where
  "existing_loop st [] existing_files = Inr existing_files"
| "existing_loop st (file_path # rest) existing_files =
     (if \<not> rpm_match file_path then existing_loop st rest existing_files
      else
        (case st_mtime st file_path of
           Inl e \<Rightarrow> Inl e
         | Inr mtime \<Rightarrow> existing_loop st rest (set_add (file_path, mtime) existing_files)))"

definition set_diff :: "'a list \<Rightarrow> 'a list \<Rightarrow> 'a list" where
  "set_diff xs ys = filter (\<lambda>x. x \<notin> set ys) xs"

definition files_to_add ::
  "storage \<Rightarrow> pylib \<Rightarrow> (nerv \<times> primary_pkg) list \<Rightarrow> error + (string \<times> rat) list" where
  "files_to_add st lib primary =
     ebind (recorded_loop lib (map snd primary) []) (\<lambda>recorded_files.
     ebind (st_files st ''.'') (\<lambda>paths.
     ebind (existing_loop st paths []) (\<lambda>existing_files.
     Inr (set_diff existing_files recorded_files))))"

text \<open>
  Lines 480 to 498, the body of the loop over \<^verbatim>\<open>files_to_add\<close>. The statements run in
  the order of the source; an exception leaves the world as it is at that statement.
\<close>

definition adding :: "string \<Rightarrow> string" where
  "adding file_path = ''Adding: '' @ [CHR 0x27] @ file_path @ [CHR 0x27]"

definition ingest ::
  "storage \<Rightarrow> rpmfile \<Rightarrow> pylib \<Rightarrow> string \<times> rat \<Rightarrow> world
     \<Rightarrow> (nerv \<times> filelists_pkg) list \<Rightarrow> (nerv \<times> primary_pkg) list
     \<Rightarrow> world \<times> (error + ((nerv \<times> filelists_pkg) list \<times> (nerv \<times> primary_pkg) list))" where
  "ingest st rf lib file_to_add w filelists primary =
     (let file_path = fst file_to_add;
          mtime = snd file_to_add;
          w1 = print (adding file_path) w;
          (tmpdir, w2) = mkdtemp w1
      in case st_download_file st file_path of
           Inl e \<Rightarrow> (w2, Inl e)
         | Inr package_rpm \<Rightarrow>
             (case parse_file rf package_rpm of
                Inl e \<Rightarrow> (w2, Inl e)
              | Inr header \<Rightarrow>
                  (case file_checksum lib package_rpm ''sha256'' of
                     Inl e \<Rightarrow> (w2, Inl e)
                   | Inr sha256 \<Rightarrow>
                       (let w3 = rmtree tmpdir w2
                        in case header_to_primary rf header sha256 mtime file_path of
                             Inl e \<Rightarrow> (w3, Inl e)
                           | Inr (nerv, prim) \<Rightarrow>
                               (case header_to_filelists header sha256 of
                                  Inl e \<Rightarrow> (w3, Inl e)
                                | Inr (_, flist) \<Rightarrow>
                                    (w3, Inr (AList.update nerv flist filelists,
                                              AList.update nerv prim primary)))))))"

fun ingest_loop ::
  "storage \<Rightarrow> rpmfile \<Rightarrow> pylib \<Rightarrow> (string \<times> rat) list \<Rightarrow> world
     \<Rightarrow> (nerv \<times> filelists_pkg) list \<Rightarrow> (nerv \<times> primary_pkg) list
     \<Rightarrow> world \<times> (error + ((nerv \<times> filelists_pkg) list \<times> (nerv \<times> primary_pkg) list))" where
  "ingest_loop st rf lib [] w filelists primary = (w, Inr (filelists, primary))"
| "ingest_loop st rf lib (file_to_add # rest) w filelists primary =
     (case ingest st rf lib file_to_add w filelists primary of
        (w', Inl e) \<Rightarrow> (w', Inl e)
      | (w', Inr (filelists', primary')) \<Rightarrow> ingest_loop st rf lib rest w' filelists' primary')"

text \<open>
  \<^verbatim>\<open>update_repo\<close> returns nothing and keeps the index in its local variables; the model
  returns their final values, \<^verbatim>\<open>(filelists, primary)\<close>, with the world. \<open>reconcile\<close> is the
  function from line 461 on, with the index that lines 447 to 459 have set up.
\<close>

definition reconcile ::
  "storage \<Rightarrow> rpmfile \<Rightarrow> pylib \<Rightarrow> world
     \<Rightarrow> (nerv \<times> filelists_pkg) list \<Rightarrow> (nerv \<times> primary_pkg) list
     \<Rightarrow> world \<times> (error + ((nerv \<times> filelists_pkg) list \<times> (nerv \<times> primary_pkg) list))" where
  "reconcile st rf lib w filelists primary =
     (case files_to_add st lib primary of
        Inl e \<Rightarrow> (w, Inl e)
      | Inr to_add \<Rightarrow> ingest_loop st rf lib (set_order lib to_add) w filelists primary)"

definition update_repo ::
  "storage \<Rightarrow> rpmfile \<Rightarrow> pylib \<Rightarrow> world
     \<Rightarrow> world \<times> (error + ((nerv \<times> filelists_pkg) list \<times> (nerv \<times> primary_pkg) list))" where
  "update_repo st rf lib w =
     (case load_index st lib of
        Inl e \<Rightarrow> (w, Inl e)
      | Inr (filelists, primary) \<Rightarrow> reconcile st rf lib w filelists primary)"

section \<open>The words of the properties\<close>

text \<open>
  What the statements below say about the functions above, named once. An index is in
  range of a list when \<^verbatim>\<open>xs[i]\<close> does not raise. \<open>file_of\<close> is the file entry of one
  pair of \<^verbatim>\<open>zip(basenames, dirindexes)\<close>, \<open>manifest\<close> the list of entries the two loops
  build, and \<open>indexes_ok\<close> holds when every index that is paired with a base name is in
  range of the directory table.
\<close>

definition in_range :: "'a list \<Rightarrow> int \<Rightarrow> bool" where
  "in_range xs i = (- int (length xs) \<le> i \<and> i < int (length xs))"

definition file_of :: "string list \<Rightarrow> string \<times> int \<Rightarrow> file_entry" where
  "file_of dirnames entry =
     \<lparr>f_name = Some ((if 0 \<le> snd entry then dirnames ! nat (snd entry)
                       else dirnames ! nat (int (length dirnames) + snd entry)) @ fst entry),
      f_type = File\<rparr>"

definition manifest :: "string list \<Rightarrow> string list \<Rightarrow> int list \<Rightarrow> file_entry list" where
  "manifest dirnames basenames dirindexes =
     map (file_of dirnames) (zip basenames dirindexes)
     @ map (\<lambda>d. \<lparr>f_name = Some d, f_type = Dir\<rparr>) dirnames"

definition indexes_ok :: "header \<Rightarrow> bool" where
  "indexes_ok h =
     (\<forall>e \<in> set (zip (get_list (BASENAMES h)) (get_list (DIRINDEXES h))).
        in_range (get_list (DIRNAMES h)) (snd e))"

text \<open>
  A version text is accepted by \<^verbatim>\<open>parse_ver_str\<close> when it is empty or matches the
  pattern. An entry of a dependency table is (name, version, flags); \<open>rpmlib\<close> is the
  test of line 369. \<open>req_of\<close> and \<open>dep_of\<close> are the key and the value the loops store
  for an entry whose version is accepted, \<open>pre_of\<close> is the \<^verbatim>\<open>pre\<close> of lines 372 to 375,
  and \<open>store\<close> is \<^verbatim>\<open>d[k] = v\<close>. \<open>requires_entries\<close> is the zip of line 363 and
  \<open>survivors\<close> are its entries that line 369 does not skip.
\<close>

definition ver_ok :: "string \<Rightarrow> bool" where
  "ver_ok v = (v = [] \<or> re_match ver_expr v)"

definition rpmlib :: "rpmfile \<Rightarrow> string \<times> string \<times> int \<Rightarrow> bool" where
  "rpmlib rf entry = (snd (snd entry) AND RPMSENSE_RPMLIB rf \<noteq> 0)"

definition pre_of :: "int \<Rightarrow> string option" where
  "pre_of flags = (if flags AND 4352 \<noteq> 0 then Some ''1'' else None)"

definition req_of :: "rpmfile \<Rightarrow> string \<times> string \<times> int \<Rightarrow> dep_nerv \<times> req" where
  "req_of rf entry =
     (case parse_ver_str (Some (fst (snd entry))) of
        Inl e \<Rightarrow> ((fst entry, None, None, None),
                  \<lparr>d_name = fst entry, d_epoch = None, d_rel = None, d_ver = None,
                   d_flags = None, d_pre = None\<rparr>)
      | Inr (epoch, ver, rel) \<Rightarrow>
          ((fst entry, epoch, rel, ver),
           \<lparr>d_name = fst entry, d_epoch = epoch, d_rel = rel, d_ver = ver,
            d_flags = flags_to_str rf (snd (snd entry)),
            d_pre = (if snd (snd entry) AND 4352 \<noteq> 0 then Some ''1'' else None)\<rparr>))"

definition dep_of :: "rpmfile \<Rightarrow> string \<times> string \<times> int \<Rightarrow> dep_nerv \<times> dep" where
  "dep_of rf entry =
     (case parse_ver_str (Some (fst (snd entry))) of
        Inl e \<Rightarrow> ((fst entry, None, None, None),
                  \<lparr>d_name = fst entry, d_epoch = None, d_rel = None, d_ver = None,
                   d_flags = None\<rparr>)
      | Inr (epoch, ver, rel) \<Rightarrow>
          ((fst entry, epoch, rel, ver),
           \<lparr>d_name = fst entry, d_epoch = epoch, d_rel = rel, d_ver = ver,
            d_flags = flags_to_str rf (snd (snd entry))\<rparr>))"

definition store :: "('k \<times> 'v) list \<Rightarrow> 'k \<times> 'v \<Rightarrow> ('k \<times> 'v) list" where
  "store d kv = AList.update (fst kv) (snd kv) d"

definition requires_entries :: "header \<Rightarrow> (string \<times> string \<times> int) list" where
  "requires_entries h =
     zip3 (get_list (REQUIRENAME h)) (get_list (REQUIREVERSION h)) (get_list (REQUIREFLAGS h))"

definition survivors :: "rpmfile \<Rightarrow> header \<Rightarrow> (string \<times> string \<times> int) list" where
  "survivors rf h = filter (\<lambda>e. \<not> rpmlib rf e) (requires_entries h)"

text \<open>
  The dependency arrays of a header are empty when each of the nine is empty or absent;
  \<open>versions_ok\<close> holds when \<^verbatim>\<open>parse_ver_str\<close> accepts the version of every entry of the
  three zips, and \<open>tables_present\<close> when the three file tables are there.
\<close>

definition no_dependencies :: "header \<Rightarrow> bool" where
  "no_dependencies h =
     (get_list (PROVIDENAME h) = [] \<and> get_list (PROVIDEVERSION h) = []
      \<and> get_list (PROVIDEFLAGS h) = [] \<and> get_list (REQUIRENAME h) = []
      \<and> get_list (REQUIREVERSION h) = [] \<and> get_list (REQUIREFLAGS h) = []
      \<and> get_list (OBSOLETENAME h) = [] \<and> get_list (OBSOLETEVERSION h) = []
      \<and> get_list (OBSOLETEFLAGS h) = [])"

definition provides_entries :: "header \<Rightarrow> (string \<times> string \<times> int) list" where
  "provides_entries h =
     zip3 (get_list (PROVIDENAME h)) (get_list (PROVIDEVERSION h)) (get_list (PROVIDEFLAGS h))"

definition obsoletes_entries :: "header \<Rightarrow> (string \<times> string \<times> int) list" where
  "obsoletes_entries h =
     zip3 (get_list (OBSOLETENAME h)) (get_list (OBSOLETEVERSION h)) (get_list (OBSOLETEFLAGS h))"

definition versions_ok :: "header \<Rightarrow> bool" where
  "versions_ok h =
     (\<forall>e \<in> set (provides_entries h) \<union> set (requires_entries h) \<union> set (obsoletes_entries h).
        ver_ok (fst (snd e)))"

definition tables_present :: "header \<Rightarrow> bool" where
  "tables_present h = (DIRNAMES h \<noteq> None \<and> BASENAMES h \<noteq> None \<and> DIRINDEXES h \<noteq> None)"

text \<open>
  A record of the summary document is typed when it has a \<^verbatim>\<open>type\<close> attribute, and well
  formed when it has the five children whose text \<^verbatim>\<open>parse_repomd\<close> reads and a location
  with an \<^verbatim>\<open>href\<close>. \<open>data_of\<close> is the \<^verbatim>\<open>result\<close> of a well formed record, and \<open>locator\<close> is
  the last record of a type among the children, or the value before the loop. A record is
  ignorable when it is not typed, or is well formed and of neither recognized type.
\<close>

definition typed :: "element \<Rightarrow> bool" where
  "typed c = (map_of (el_attrib c) ''type'' \<noteq> None)"

definition typed_as :: "string \<Rightarrow> element \<Rightarrow> bool" where
  "typed_as t c = (map_of (el_attrib c) ''type'' = Some t)"

definition href :: "element \<Rightarrow> string option" where
  "href c =
     (case find_el (qname ns_repo ''location'') c of
        None \<Rightarrow> None
      | Some l \<Rightarrow> map_of (el_attrib l) ''href'')"

definition well_formed :: "element \<Rightarrow> bool" where
  "well_formed c =
     (find_el (qname ns_repo ''checksum'') c \<noteq> None
      \<and> find_el (qname ns_repo ''open-checksum'') c \<noteq> None
      \<and> find_el (qname ns_repo ''timestamp'') c \<noteq> None
      \<and> find_el (qname ns_repo ''size'') c \<noteq> None
      \<and> find_el (qname ns_repo ''open-size'') c \<noteq> None
      \<and> href c \<noteq> None)"

definition field_text :: "string \<Rightarrow> element \<Rightarrow> string option" where
  "field_text k c = (case find_el (qname ns_repo k) c of None \<Rightarrow> None | Some e \<Rightarrow> el_text e)"

definition data_of :: "element \<Rightarrow> repomd_data" where
  "data_of c =
     \<lparr>rd_checksum = field_text ''checksum'' c, rd_open_checksum = field_text ''open-checksum'' c,
      rd_timestamp = field_text ''timestamp'' c, rd_size = field_text ''size'' c,
      rd_open_size = field_text ''open-size'' c, rd_location = the (href c)\<rparr>"

definition locator :: "string \<Rightarrow> element list \<Rightarrow> repomd_data option \<Rightarrow> repomd_data option" where
  "locator t cs d =
     (case filter (typed_as t) cs of [] \<Rightarrow> d | z # zs \<Rightarrow> Some (data_of (last (z # zs))))"

definition ignorable :: "element \<Rightarrow> bool" where
  "ignorable c =
     (\<not> typed c \<or> (well_formed c \<and> \<not> typed_as ''filelists'' c \<and> \<not> typed_as ''primary'' c))"

text \<open>
  \<open>fetched\<close> is the three statements of the loop body between \<^verbatim>\<open>mkdtemp\<close> and
  \<^verbatim>\<open>rmtree\<close> (lines 486 to 490), \<open>merged\<close> the four after \<^verbatim>\<open>rmtree\<close> (lines 494 to 498).
  A world is fresh when each of its scratch directories has a number below the next one
  \<^verbatim>\<open>mkdtemp\<close> gives out. \<open>current\<close> and \<open>recorded\<close> are the two sets of the diff.
\<close>

definition fetched :: "storage \<Rightarrow> rpmfile \<Rightarrow> pylib \<Rightarrow> string \<Rightarrow> error + (header \<times> string)" where
  "fetched st rf lib file_path =
     ebind (st_download_file st file_path) (\<lambda>package_rpm.
     ebind (parse_file rf package_rpm) (\<lambda>header.
     ebind (file_checksum lib package_rpm ''sha256'') (\<lambda>sha256.
     Inr (header, sha256))))"

definition merged ::
  "rpmfile \<Rightarrow> header \<Rightarrow> string \<Rightarrow> string \<times> rat
     \<Rightarrow> (nerv \<times> filelists_pkg) list \<Rightarrow> (nerv \<times> primary_pkg) list
     \<Rightarrow> error + ((nerv \<times> filelists_pkg) list \<times> (nerv \<times> primary_pkg) list)" where
  "merged rf header sha256 file_to_add filelists primary =
     ebind (header_to_primary rf header sha256 (snd file_to_add) (fst file_to_add)) (\<lambda>(nerv, prim).
     ebind (header_to_filelists header sha256) (\<lambda>(_, flist).
     Inr (AList.update nerv flist filelists, AList.update nerv prim primary)))"

definition fresh :: "world \<Rightarrow> bool" where
  "fresh w = (\<forall>d \<in> set (tmpdirs w). d < next_tmp w)"



section \<open>Examples\<close>

text \<open>
  Concrete inputs for the statements below: a header with no key, the header of a package
  with the one file \<^verbatim>\<open>/usr/bin/foo\<close>, the same with three requires entries (the first
  one internal to rpmlib, the last one a prerequisite), and an \<^verbatim>\<open>rpmfile\<close> module whose
  constant is bit 24 and whose \<open>flags_to_str\<close> names the comparison bits.
\<close>

definition no_header :: header where
  "no_header =
     \<lparr>NAME = None, ARCH = None, SUMMARY = None, DESCRIPTION = None, PACKAGER = None,
      BUILDTIME = None, URL = None, EPOCH = None, RELEASE = None, VERSION = None,
      LICENSE = None, VENDOR = None, GROUP = None, BUILDHOST = None, SOURCERPM = None,
      PROVIDENAME = None, PROVIDEVERSION = None, PROVIDEFLAGS = None,
      REQUIRENAME = None, REQUIREVERSION = None, REQUIREFLAGS = None,
      OBSOLETENAME = None, OBSOLETEVERSION = None, OBSOLETEFLAGS = None,
      DIRNAMES = None, BASENAMES = None, DIRINDEXES = None\<rparr>"

definition header_foo :: header where
  "header_foo =
     no_header\<lparr>NAME := Some ''foo'', ARCH := Some ''x86_64'', SUMMARY := Some ''Foo'',
       DESCRIPTION := Some ''The foo tool'', BUILDTIME := Some ''1500000000'',
       URL := Some ''http://example.org/foo'', RELEASE := Some ''1'', VERSION := Some ''1.0'',
       DIRNAMES := Some [''/usr/bin/''], BASENAMES := Some [''foo''], DIRINDEXES := Some [0]\<rparr>"

definition header_req :: header where
  "header_req =
     header_foo\<lparr>REQUIRENAME := Some [''rpmlib(CompressedFileNames)'', ''libc.so.6'', ''/bin/sh''],
       REQUIREVERSION := Some [''3.0.4-1'', '''', ''''],
       REQUIREFLAGS := Some [16777226, 16384, 256]\<rparr>"

definition flags_to_str0 :: "int \<Rightarrow> string option" where
  "flags_to_str0 flags =
     (if flags AND 14 = 2 then Some ''LT'' else if flags AND 14 = 4 then Some ''GT''
      else if flags AND 14 = 8 then Some ''EQ'' else if flags AND 14 = 10 then Some ''LE''
      else if flags AND 14 = 12 then Some ''GE'' else None)"

definition rpmfile_of :: "(string \<Rightarrow> error + header) \<Rightarrow> rpmfile" where
  "rpmfile_of reader =
     \<lparr>RPMSENSE_RPMLIB = 16777216, flags_to_str = flags_to_str0, parse_file = reader\<rparr>"

definition no_reader :: "string \<Rightarrow> error + header" where
  "no_reader content = Inl (Failure ''not an archive'')"

text \<open>
  More examples: the manifest of the one file; the example header with a directory index
  that no base name is paired with, with an index out of range, and with an empty NAME;
  a package node of a filelists document whose name is empty.
\<close>

definition foo_manifest :: "file_entry list" where
  "foo_manifest =
     [\<lparr>f_name = Some ''/usr/bin/foo'', f_type = File\<rparr>,
      \<lparr>f_name = Some ''/usr/bin/'', f_type = Dir\<rparr>]"

definition header_stray :: header where
  "header_stray = header_foo\<lparr>BASENAMES := Some [], DIRINDEXES := Some [5]\<rparr>"

definition header_bad :: header where
  "header_bad = header_foo\<lparr>DIRINDEXES := Some [1]\<rparr>"

definition header_anon :: header where
  "header_anon = header_foo\<lparr>NAME := Some ''''\<rparr>"

definition package_anon :: element where
  "package_anon =
     Element (qname ns_filelists ''package'')
       [(''pkgid'', ''5f2a''), (''name'', ''''), (''arch'', ''x86_64'')] None
       [Element (qname ns_filelists ''version'')
          [(''epoch'', ''0''), (''ver'', ''1.0''), (''rel'', ''1'')] None [],
        Element (qname ns_filelists ''file'') [] (Some ''/usr/bin/foo'') []]"

text \<open>
  An instance of the library parameters. \<open>float_of_numeral\<close> is \<^verbatim>\<open>float\<close> on the decimal
  numeral of an integer. A Python float is a binary64 number, so \<^verbatim>\<open>float\<close> gives the
  nearest number whose significand has 53 bits, a tie going to the even significand
  (\<open>round_binary64\<close>, on the magnitude): an integer of magnitude up to 2^53 is read back as
  itself, and 9007199254740993, which is 2^53 + 1, is read as 9007199254740992. Where the
  nearest such number is 2^1024 or beyond, \<^verbatim>\<open>float\<close> gives \<^verbatim>\<open>inf\<close>, which is no number
  here; the instance raises ValueError there, as it does on any text that is not the
  numeral of an integer (it stands for \<^verbatim>\<open>float\<close> on the texts the examples contain).
  The digest is the bytes themselves behind the name of the algorithm, and a set is run
  through in the order of insertion.
\<close>

definition digit_val :: "char \<Rightarrow> nat" where
  "digit_val c = of_char c - 48"

definition numeral_val :: "string \<Rightarrow> nat" where
  "numeral_val s = foldl (\<lambda>a c. 10 * a + digit_val c) 0 s"

fun bit_length :: "nat \<Rightarrow> nat" where
  "bit_length n = (if n = 0 then 0 else Suc (bit_length (n div 2)))"

text \<open>The equation of \<open>bit_length\<close> is applied by name, as that of \<open>str_nat\<close> is.\<close>

declare bit_length.simps [simp del]

definition round_binary64 :: "nat \<Rightarrow> nat" where
  "round_binary64 n =
     (let k = bit_length n - 53; q = n div 2 ^ k; r = n mod 2 ^ k
      in if 2 ^ k < 2 * r \<or> (2 * r = 2 ^ k \<and> odd q) then (q + 1) * 2 ^ k else q * 2 ^ k)"

definition binary64 :: "nat \<Rightarrow> error + rat" where
  "binary64 n =
     (if round_binary64 n < 2 ^ 1024 then Inr (of_nat (round_binary64 n)) else Inl ValueError)"

definition float_of_numeral :: "string \<Rightarrow> error + rat" where
  "float_of_numeral s =
     (if digits s then binary64 (numeral_val s)
      else if s \<noteq> [] \<and> hd s = CHR ''-'' \<and> digits (tl s)
        then (case binary64 (numeral_val (tl s)) of Inl e \<Rightarrow> Inl e | Inr v \<Rightarrow> Inr (- v))
      else Inl ValueError)"

definition pylib_of :: "(string \<Rightarrow> error + element) \<Rightarrow> pylib" where
  "pylib_of parser =
     \<lparr>fromstring = parser, gzip_read = Inr, py_float = float_of_numeral,
      hexdigest = (\<lambda>checksum_type content. Inr (checksum_type @ '':'' @ content)),
      set_order = (\<lambda>xs. xs)\<rparr>"

definition no_parser :: "string \<Rightarrow> error + element" where
  "no_parser data = Inl (Failure ''not a document'')"

text \<open>
  Examples: the records of a summary document; a storage holding the given archives
  (path, modification time, bytes) and no summary document, and the same storage with a
  download that raises; an archive reader given by a table from bytes to headers; the world
  before a run; and an index with one package, recorded under the identity
  (foo, 0, 1, 1.0) at the location \<^verbatim>\<open>a.rpm\<close> and the file time 100, with the records the
  header mappers derive from the header of that package at the time 200.
\<close>

definition repo_field :: "string \<Rightarrow> string \<Rightarrow> element" where
  "repo_field k v = Element (qname ns_repo k) [] (Some v) []"

definition repo_location :: "string \<Rightarrow> element" where
  "repo_location h = Element (qname ns_repo ''location'') [(''href'', h)] None []"

definition repo_data :: "string \<Rightarrow> string \<Rightarrow> element" where
  "repo_data t h =
     Element (qname ns_repo ''data'') [(''type'', t)] None
       [repo_field ''checksum'' ''c0'', repo_field ''open-checksum'' ''c1'',
        repo_location h, repo_field ''timestamp'' ''1500000000'',
        repo_field ''size'' ''10'', repo_field ''open-size'' ''20'']"

definition repo_group :: element where
  "repo_group =
     Element (qname ns_repo ''data'') [(''type'', ''group'')] None
       [repo_field ''checksum'' ''c2'', repo_location ''repodata/comps.xml'',
        repo_field ''timestamp'' ''1500000000'', repo_field ''size'' ''5'']"

definition repomd_ok :: element where
  "repomd_ok =
     Element (qname ns_repo ''repomd'') [] None
       [Element (qname ns_repo ''revision'') [] (Some ''1500000000'') [],
        repo_data ''filelists'' ''repodata/filelists.xml.gz'',
        repo_data ''primary'' ''repodata/primary.xml.gz'',
        repo_data ''other'' ''repodata/other.xml.gz'']"

definition repomd_group :: element where
  "repomd_group =
     Element (qname ns_repo ''repomd'') [] None
       [repo_data ''filelists'' ''repodata/filelists.xml.gz'',
        repo_data ''primary'' ''repodata/primary.xml.gz'',
        repo_group]"

definition storage_of :: "(string \<times> rat \<times> string) list \<Rightarrow> storage" where
  "storage_of fs =
     \<lparr>st_exists = (\<lambda>path. False),
      st_read_file = (\<lambda>path. Inl (Failure ''no such file'')),
      st_files = (\<lambda>dir. Inr (map fst fs)),
      st_mtime = (\<lambda>path. case map_of fs path of
                             None \<Rightarrow> Inl (Failure ''no such file'')
                           | Some (t, content) \<Rightarrow> Inr t),
      st_download_file = (\<lambda>path. case map_of fs path of
                             None \<Rightarrow> Inl (Failure ''no such file'')
                           | Some (t, content) \<Rightarrow> Inr content)\<rparr>"

definition storage_down :: "(string \<times> rat \<times> string) list \<Rightarrow> storage" where
  "storage_down fs = (storage_of fs)\<lparr>st_download_file := (\<lambda>path. Inl (Failure ''connection lost''))\<rparr>"

definition reader_of :: "(string \<times> header) list \<Rightarrow> string \<Rightarrow> error + header" where
  "reader_of hs content =
     (case map_of hs content of None \<Rightarrow> Inl (Failure ''not an archive'') | Some h \<Rightarrow> Inr h)"

definition world0 :: world where
  "world0 = \<lparr>next_tmp = 0, tmpdirs = [], stdout = []\<rparr>"







section \<open>The version grammar\<close>

lemma star_chars: "star {[c] | c. P c} = {s. \<forall>c \<in> set s. P c}"
proof (rule set_eqI, rule iffI)
  fix s assume "s \<in> star {[c] | c. P c}"
  then show "s \<in> {s. \<forall>c \<in> set s. P c}"
    by (induction rule: star.induct) auto
next
  fix s assume "s \<in> {s. \<forall>c \<in> set s. P c}"
  then have "\<forall>c \<in> set s. P c" by simp
  then show "s \<in> star {[c] | c. P c}"
  proof (induction s)
    case Nil show ?case by (rule star_nil)
  next
    case (Cons a s)
    have "[a] @ s \<in> star {[c] | c. P c}"
      by (rule star_app) (use Cons in auto)
    then show ?case by simp
  qed
qed


lemma lit_single: "lang (lit [c]) = {[c]}"
  by (simp add: lit_def)

lemma match_body_iff:
  "match_body t = Some (v, r) \<longleftrightarrow> t = v @ CHR ''-'' # r \<and> dash_free v \<and> dash_free r"
proof
  assume a: "match_body t = Some (v, r)"
  obtain c u where rest: "dropWhile not_dash t = c # u" and d: "dropWhile not_dash u = []"
    and v: "v = takeWhile not_dash t" and r: "r = takeWhile not_dash u"
    using a by (auto simp: match_body_def Let_def split: list.splits if_splits)
  have "\<not> not_dash c" using rest by (metis hd_dropWhile list.sel(1) list.distinct(1))
  then have c: "c = CHR ''-''" by (simp add: not_dash_def)
  have ru: "r = u" using d r by (metis takeWhile_dropWhile_id append_Nil2)
  have "t = takeWhile not_dash t @ dropWhile not_dash t" by simp
  then have "t = v @ CHR ''-'' # r" using rest v c ru by simp
  moreover have "dash_free v" using v by (auto simp: dash_free_def dest: set_takeWhileD)
  moreover have "dash_free r" using r by (auto simp: dash_free_def dest: set_takeWhileD)
  ultimately show "t = v @ CHR ''-'' # r \<and> dash_free v \<and> dash_free r" by simp
next
  assume a: "t = v @ CHR ''-'' # r \<and> dash_free v \<and> dash_free r"
  then have tv: "takeWhile not_dash t = v" and dv: "dropWhile not_dash t = CHR ''-'' # r"
    by (auto simp: dash_free_def not_dash_def takeWhile_append2 dropWhile_append2)
  have "dropWhile not_dash r = []" "takeWhile not_dash r = r"
    using a by (auto simp: dash_free_def)
  then show "match_body t = Some (v, r)"
    using tv dv by (simp add: match_body_def Let_def)
qed

lemma match_body_None_iff:
  "match_body t = None \<longleftrightarrow> \<not> (\<exists>v r. t = v @ CHR ''-'' # r \<and> dash_free v \<and> dash_free r)"
  by (metis match_body_iff not_Some_eq prod.exhaust option.distinct(1))

lemma lang_star_chars: "lang (Star (Chars P)) = {s. \<forall>c \<in> set s. P c}"
  using star_chars [of P] by simp

lemma lang_digits: "lang (Times (Chars is_digit) (Star (Chars is_digit))) = {d. digits d}"
proof -
  have "{u @ v | u v. u \<in> lang (Chars is_digit) \<and> v \<in> {s. \<forall>c \<in> set s. is_digit c}} = {d. digits d}"
  proof (rule set_eqI, rule iffI)
    fix d assume "d \<in> {u @ v | u v. u \<in> lang (Chars is_digit) \<and> v \<in> {s. \<forall>c \<in> set s. is_digit c}}"
    then show "d \<in> {d. digits d}" by (auto simp: digits_def)
  next
    fix d assume "d \<in> {d. digits d}"
    then obtain c v where "d = c # v" "is_digit c" "\<forall>x \<in> set v. is_digit x"
      by (cases d) (auto simp: digits_def)
    then have "d = [c] @ v \<and> [c] \<in> lang (Chars is_digit) \<and> v \<in> {s. \<forall>c \<in> set s. is_digit c}"
      by simp
    then show "d \<in> {u @ v | u v. u \<in> lang (Chars is_digit) \<and> v \<in> {s. \<forall>c \<in> set s. is_digit c}}"
      by blast
  qed
  then show ?thesis by (simp only: lang.simps(2) lang_star_chars)
qed

lemma lang_epoch:
  "lang (Opt (Times (Times (Chars is_digit) (Star (Chars is_digit))) (lit '':'')))
     = {p. p = [] \<or> epoch_prefix p}"
proof -
  have "lang (Times (Times (Chars is_digit) (Star (Chars is_digit))) (lit '':''))
      = {u @ v | u v. u \<in> {d. digits d} \<and> v \<in> {'':''}}"
    by (simp only: lang.simps(2) [of "Times (Chars is_digit) (Star (Chars is_digit))"]
        lang_digits lit_single)
  also have "\<dots> = {p. epoch_prefix p}"
    by (auto simp: epoch_prefix_def)
  finally show ?thesis by auto
qed

lemma lang_body:
  "lang (Times (Star (Chars not_dash)) (Times (lit ''-'') (Star (Chars not_dash))))
     = {v @ CHR ''-'' # r | v r. dash_free v \<and> dash_free r}"
proof -
  have "lang (Times (lit ''-'') (Star (Chars not_dash))) = {CHR ''-'' # r | r. dash_free r}"
    by (simp only: lang.simps(2) lang_star_chars lit_single) (auto simp: dash_free_def)
  then show ?thesis
    by (simp only: lang.simps(2) [of "Star (Chars not_dash)"] lang_star_chars)
      (auto simp: dash_free_def)
qed

lemma lang_ver_expr:
  "lang ver_expr =
     {p @ v @ CHR ''-'' # r | p v r. (p = [] \<or> epoch_prefix p) \<and> dash_free v \<and> dash_free r}"
  unfolding ver_expr_def lang.simps(2) [of "Opt _"] lang_epoch lang_body
  by auto

lemma is_digit_not_dash: "is_digit c \<Longrightarrow> not_dash c"
  by (auto simp: is_digit_def not_dash_def)

lemma epoch_prefix_dash_free:
  assumes "epoch_prefix p"
  shows "dash_free p"
proof -
  obtain d where d: "\<forall>c \<in> set d. is_digit c" and p: "p = d @ '':''"
    using assms by (auto simp: epoch_prefix_def digits_def)
  have "\<forall>c \<in> set d. not_dash c" using d is_digit_not_dash by blast
  then show ?thesis unfolding dash_free_def p by (simp add: not_dash_def)
qed

lemma lang_ver_expr_iff:
  "s \<in> lang ver_expr \<longleftrightarrow> (\<exists>v r. s = v @ CHR ''-'' # r \<and> dash_free v \<and> dash_free r)"
proof
  assume "s \<in> lang ver_expr"
  then obtain p v r where s: "s = p @ v @ CHR ''-'' # r" and p: "p = [] \<or> epoch_prefix p"
    and v: "dash_free v" and r: "dash_free r"
    unfolding lang_ver_expr by blast
  have "dash_free (p @ v)" using p v epoch_prefix_dash_free by (auto simp: dash_free_def)
  with s r show "\<exists>v r. s = v @ CHR ''-'' # r \<and> dash_free v \<and> dash_free r"
    by (metis append_assoc)
next
  assume "\<exists>v r. s = v @ CHR ''-'' # r \<and> dash_free v \<and> dash_free r"
  then obtain v r where "s = [] @ v @ CHR ''-'' # r" "dash_free v" "dash_free r" by auto
  then show "s \<in> lang ver_expr" unfolding lang_ver_expr by blast
qed

lemma re_match_ver_expr:
  "re_match ver_expr s \<longleftrightarrow> (\<exists>v r. s = v @ CHR ''-'' # r \<and> dash_free v \<and> dash_free r)"
proof -
  have "s \<in> lang ver_expr" if a: "s = t @ [LF]" and b: "t \<in> lang ver_expr" for t
  proof -
    obtain v r where "t = v @ CHR ''-'' # r" "dash_free v" "dash_free r"
      using b lang_ver_expr_iff by blast
    then have "s = v @ CHR ''-'' # (r @ [LF]) \<and> dash_free v \<and> dash_free (r @ [LF])"
      using a by (simp add: dash_free_def not_dash_def LF_def)
    then show ?thesis using lang_ver_expr_iff by blast
  qed
  then show ?thesis unfolding re_match_def using lang_ver_expr_iff by blast
qed

lemma match_ver_prefix:
  assumes "digits d" "dash_free v" "dash_free r"
  shows "match_ver (d @ '':'' @ v @ CHR ''-'' # r) = Some (Some (d @ '':''), v, r)"
proof -
  have nd: "\<not> is_digit (CHR '':'')" by (simp add: is_digit_def)
  have t: "takeWhile is_digit (d @ '':'' @ v @ CHR ''-'' # r) = d"
    using assms(1) nd by (simp add: digits_def takeWhile_append2)
  have dr: "dropWhile is_digit (d @ '':'' @ v @ CHR ''-'' # r) = '':'' @ v @ CHR ''-'' # r"
    using assms(1) nd by (simp add: digits_def dropWhile_append2)
  have b: "match_body (v @ CHR ''-'' # r) = Some (v, r)"
    using assms match_body_iff by blast
  show ?thesis
    unfolding match_ver_def t dr Let_def using assms(1) b by (simp add: digits_def)
qed

lemma match_ver_no_prefix:
  assumes "dash_free v" "dash_free r" "\<not> (\<exists>d u. digits d \<and> v @ CHR ''-'' # r = d @ '':'' @ u)"
  shows "match_ver (v @ CHR ''-'' # r) = Some (None, v, r)"
proof -
  let ?s = "v @ CHR ''-'' # r"
  let ?d = "takeWhile is_digit ?s" and ?rest = "dropWhile is_digit ?s"
  have c: "\<not> (?d \<noteq> [] \<and> ?rest \<noteq> [] \<and> hd ?rest = CHR '':'')"
  proof
    assume a: "?d \<noteq> [] \<and> ?rest \<noteq> [] \<and> hd ?rest = CHR '':''"
    then have "digits ?d" by (auto simp: digits_def dest: set_takeWhileD)
    moreover have "?rest = '':'' @ tl ?rest" using a by (cases ?rest) auto
    then have "?s = ?d @ '':'' @ tl ?rest" by (metis takeWhile_dropWhile_id)
    ultimately show False using assms(3) by blast
  qed
  have b: "match_body ?s = Some (v, r)" using assms match_body_iff by blast
  show ?thesis unfolding match_ver_def Let_def
    by (simp only: c if_False option.case prod.case b)
qed

lemma match_ver_None_iff: "match_ver s = None \<longleftrightarrow> match_body s = None"
proof
  assume "match_ver s = None"
  then show "match_body s = None"
    by (auto simp: match_ver_def Let_def split: option.splits if_splits)
next
  assume n: "match_body s = None"
  let ?d = "takeWhile is_digit s" and ?rest = "dropWhile is_digit s"
  have "match_body (tl ?rest) = None" if a: "?d \<noteq> [] \<and> ?rest \<noteq> [] \<and> hd ?rest = CHR '':''"
  proof (rule ccontr)
    assume "match_body (tl ?rest) \<noteq> None"
    then obtain v r where "match_body (tl ?rest) = Some (v, r)" by auto
    then have b: "tl ?rest = v @ CHR ''-'' # r" "dash_free v" "dash_free r"
      using match_body_iff by blast+
    have "?rest = '':'' @ tl ?rest" using a by (cases ?rest) auto
    then have s: "s = (?d @ '':'' @ v) @ CHR ''-'' # r"
      using b(1) by (metis takeWhile_dropWhile_id append_assoc)
    have "dash_free ?d"
      unfolding dash_free_def using is_digit_not_dash by (auto dest!: set_takeWhileD)
    then have "dash_free (?d @ '':'' @ v)" using b(2) by (auto simp: dash_free_def not_dash_def)
    then have "match_body s \<noteq> None" using s b(3) match_body_None_iff by blast
    then show False using n by simp
  qed
  then show "match_ver s = None"
    using n unfolding match_ver_def Let_def by (auto split: option.splits)
qed

lemma match_ver_None_re: "match_ver s = None \<longleftrightarrow> \<not> re_match ver_expr s"
  by (simp add: match_ver_None_iff match_body_None_iff re_match_ver_expr)



lemma parse_ver_str_fail:
  assumes "s \<noteq> []"
  shows "(\<exists>e. parse_ver_str (Some s) = Inl e) \<longleftrightarrow> \<not> re_match ver_expr s"
    and "\<not> re_match ver_expr s \<Longrightarrow> parse_ver_str (Some s) = Inl (cant_parse s)"
  using assms match_ver_None_re [of s]
  by (auto simp: parse_ver_str_def split: option.splits)

lemma parse_ver_str_prefix:
  assumes "digits d" "dash_free v" "dash_free r"
  shows "parse_ver_str (Some (d @ '':'' @ v @ ''-'' @ r)) = Inr (Some d, Some v, Some r)"
  using match_ver_prefix [OF assms] by (simp add: parse_ver_str_def)

lemma parse_ver_str_no_prefix:
  assumes "dash_free v" "dash_free r" "\<not> (\<exists>p u. epoch_prefix p \<and> v @ ''-'' @ r = p @ u)"
  shows "parse_ver_str (Some (v @ ''-'' @ r)) = Inr (Some ''0'', Some v, Some r)"
proof -
  have "\<not> (\<exists>d u. digits d \<and> v @ CHR ''-'' # r = d @ '':'' @ u)"
  proof
    assume "\<exists>d u. digits d \<and> v @ CHR ''-'' # r = d @ '':'' @ u"
    then obtain d u where "digits d" "v @ CHR ''-'' # r = (d @ '':'') @ u" by auto
    then have "epoch_prefix (d @ '':'') \<and> v @ ''-'' @ r = (d @ '':'') @ u"
      by (auto simp: epoch_prefix_def)
    then show False using assms(3) by blast
  qed
  then have "match_ver (v @ CHR ''-'' # r) = Some (None, v, r)"
    using assms(1,2) by (rule match_ver_no_prefix [rotated 2])
  then show ?thesis by (simp add: parse_ver_str_def)
qed

lemma dash_free_prefix:
  assumes "p @ u = v @ CHR ''-'' # r" "dash_free p"
  shows "\<exists>w. v = p @ w"
proof -
  obtain w where w: "(p = v @ w \<and> w @ u = CHR ''-'' # r) \<or> (p @ w = v \<and> u = w @ CHR ''-'' # r)"
    using assms(1) by (auto simp: append_eq_append_conv2)
  show ?thesis
  proof (cases "w = []")
    case True
    then show ?thesis using w by auto
  next
    case False
    have "\<not> (p = v @ w \<and> w @ u = CHR ''-'' # r)"
    proof
      assume a: "p = v @ w \<and> w @ u = CHR ''-'' # r"
      then have "hd w = CHR ''-''" using False by (cases w) auto
      then have "CHR ''-'' \<in> set p" using a False by (cases w) auto
      then show False using assms(2) by (auto simp: dash_free_def not_dash_def)
    qed
    then show ?thesis using w by auto
  qed
qed

lemma ver_forms:
  assumes "re_match ver_expr s"
  shows "(\<exists>d v r. digits d \<and> dash_free v \<and> dash_free r \<and> s = d @ '':'' @ v @ ''-'' @ r)
       \<or> (\<exists>v r. dash_free v \<and> dash_free r \<and> s = v @ ''-'' @ r
             \<and> \<not> (\<exists>p u. epoch_prefix p \<and> s = p @ u))"
proof -
  obtain v r where s: "s = v @ CHR ''-'' # r" and v: "dash_free v" and r: "dash_free r"
    using assms re_match_ver_expr by blast
  show ?thesis
  proof (cases "\<exists>p u. epoch_prefix p \<and> s = p @ u")
    case False
    then show ?thesis using s v r by auto
  next
    case True
    then obtain p u where p: "epoch_prefix p" and pu: "p @ u = v @ CHR ''-'' # r"
      using s by auto
    obtain w where w: "v = p @ w"
      using dash_free_prefix [OF pu epoch_prefix_dash_free [OF p]] by blast
    obtain d where d: "digits d" "p = d @ '':''" using p by (auto simp: epoch_prefix_def)
    have "dash_free w" using v w by (simp add: dash_free_def)
    moreover have "s = d @ '':'' @ w @ ''-'' @ r" using s w d by simp
    ultimately show ?thesis using d(1) r by blast
  qed
qed

text \<open>
  Claim C2. For every non-empty version text, \<^verbatim>\<open>parse_ver_str\<close> raises exactly when the
  text does not match \<^verbatim>\<open>^(\d+:)?([^-]*)-([^-]*)$\<close>, and the exception is the RuntimeError
  of line 275. A text that matches is of one of two forms. With the digits-and-colon
  prefix, the result is (the digits, the text between the prefix and the dash, the text
  after the dash); without it, the result is ("0", the text before the dash, the text
  after it). \<^verbatim>\<open>None\<close> and the empty text give (None, None, None) and no exception.
\<close>

theorem parse_ver_str_grammar:
  "(s \<noteq> [] \<longrightarrow>
      ((\<exists>e. parse_ver_str (Some s) = Inl e) \<longleftrightarrow> \<not> re_match ver_expr s)
    \<and> (\<not> re_match ver_expr s \<longrightarrow> parse_ver_str (Some s) = Inl (cant_parse s))
    \<and> (\<forall>d v r. digits d \<and> dash_free v \<and> dash_free r \<and> s = d @ '':'' @ v @ ''-'' @ r
          \<longrightarrow> parse_ver_str (Some s) = Inr (Some d, Some v, Some r))
    \<and> (\<forall>v r. dash_free v \<and> dash_free r \<and> s = v @ ''-'' @ r
            \<and> \<not> (\<exists>p u. epoch_prefix p \<and> s = p @ u)
          \<longrightarrow> parse_ver_str (Some s) = Inr (Some ''0'', Some v, Some r))
    \<and> (re_match ver_expr s \<longrightarrow>
         (\<exists>d v r. digits d \<and> dash_free v \<and> dash_free r \<and> s = d @ '':'' @ v @ ''-'' @ r)
       \<or> (\<exists>v r. dash_free v \<and> dash_free r \<and> s = v @ ''-'' @ r
             \<and> \<not> (\<exists>p u. epoch_prefix p \<and> s = p @ u))))
   \<and> parse_ver_str None = Inr (None, None, None)
   \<and> parse_ver_str (Some []) = Inr (None, None, None)"
proof -
  have "parse_ver_str None = Inr (None, None, None)"
    and "parse_ver_str (Some []) = Inr (None, None, None)"
    by (simp_all add: parse_ver_str_def)
  moreover have "\<forall>d v r. digits d \<and> dash_free v \<and> dash_free r \<and> s = d @ '':'' @ v @ ''-'' @ r
      \<longrightarrow> parse_ver_str (Some s) = Inr (Some d, Some v, Some r)"
    using parse_ver_str_prefix by blast
  moreover have "\<forall>v r. dash_free v \<and> dash_free r \<and> s = v @ ''-'' @ r
        \<and> \<not> (\<exists>p u. epoch_prefix p \<and> s = p @ u)
      \<longrightarrow> parse_ver_str (Some s) = Inr (Some ''0'', Some v, Some r)"
    using parse_ver_str_no_prefix by blast
  ultimately show ?thesis
    using parse_ver_str_fail [of s] ver_forms [of s] by blast
qed

text \<open>The theorem at \<^verbatim>\<open>1:2.3-4\<close>, \<^verbatim>\<open>1.0\<close> and \<^verbatim>\<open>2.3-4\<close>.\<close>

theorem parse_ver_str_grammar_witness:
  "''1:2.3-4'' \<noteq> []
   \<and> re_match ver_expr ''1:2.3-4''
   \<and> parse_ver_str (Some ''1:2.3-4'') = Inr (Some ''1'', Some ''2.3'', Some ''4'')
   \<and> \<not> re_match ver_expr ''1.0''
   \<and> parse_ver_str (Some ''1.0'') = Inl (cant_parse ''1.0'')
   \<and> parse_ver_str (Some ''2.3-4'') = Inr (Some ''0'', Some ''2.3'', Some ''4'')"
proof -
  have d: "digits ''1''" "dash_free ''2.3''" "dash_free ''4''"
    by (simp_all add: digits_def dash_free_def is_digit_def not_dash_def)
  have ne: "''1:2.3-4'' \<noteq> []" "''2.3-4'' \<noteq> []" "''1.0'' \<noteq> []"
    by simp_all
  have g1: "\<forall>d v r. digits d \<and> dash_free v \<and> dash_free r \<and> ''1:2.3-4'' = d @ '':'' @ v @ ''-'' @ r
          \<longrightarrow> parse_ver_str (Some ''1:2.3-4'') = Inr (Some d, Some v, Some r)"
    and g2: "(\<exists>e. parse_ver_str (Some ''1:2.3-4'') = Inl e) \<longleftrightarrow> \<not> re_match ver_expr ''1:2.3-4''"
    using parse_ver_str_grammar [of "''1:2.3-4''"] ne by blast+
  have a: "parse_ver_str (Some ''1:2.3-4'') = Inr (Some ''1'', Some ''2.3'', Some ''4'')"
    using g1 [rule_format, of "''1''" "''2.3''" "''4''"] d by simp
  then have b: "re_match ver_expr ''1:2.3-4''"
    using g2 by auto
  have "\<exists>e. parse_ver_str (Some ''1.0'') = Inl e"
    by (simp add: parse_ver_str_def match_ver_def match_body_def is_digit_def not_dash_def)
  then have c: "\<not> re_match ver_expr ''1.0''"
    using parse_ver_str_grammar [of "''1.0''"] ne by blast
  then have e: "parse_ver_str (Some ''1.0'') = Inl (cant_parse ''1.0'')"
    using parse_ver_str_grammar [of "''1.0''"] ne by blast
  have np: "\<not> (\<exists>p u. epoch_prefix p \<and> ''2.3-4'' = p @ u)"
  proof
    assume "\<exists>p u. epoch_prefix p \<and> ''2.3-4'' = p @ u"
    then obtain k u where k: "digits k" and eq: "''2.3-4'' = k @ '':'' @ u"
      by (auto simp: epoch_prefix_def)
    have "takeWhile is_digit (k @ '':'' @ u) = k"
      using k by (simp add: digits_def takeWhile_append2 is_digit_def)
    moreover have "takeWhile is_digit ''2.3-4'' = ''2''"
      by (simp add: is_digit_def)
    ultimately have "k = ''2''" using eq by simp
    then show False using eq by simp
  qed
  have g3: "\<forall>v r. dash_free v \<and> dash_free r \<and> ''2.3-4'' = v @ ''-'' @ r
            \<and> \<not> (\<exists>p u. epoch_prefix p \<and> ''2.3-4'' = p @ u)
          \<longrightarrow> parse_ver_str (Some ''2.3-4'') = Inr (Some ''0'', Some v, Some r)"
    using parse_ver_str_grammar [of "''2.3-4''"] ne by blast
  have f: "parse_ver_str (Some ''2.3-4'') = Inr (Some ''0'', Some ''2.3'', Some ''4'')"
    using g3 [rule_format, of "''2.3''" "''4''"] d np by simp
  show ?thesis using a b c e f by simp
qed

section \<open>Exceptions, lookups and the manifest loops\<close>

lemma ebind_Inl: "ebind (Inl e) f = Inl e"
  by (simp add: ebind_def)

lemma ebind_Inr: "ebind (Inr x) f = f x"
  by (simp add: ebind_def)

lemma ebind_eq_Inr: "ebind m f = Inr y \<longleftrightarrow> (\<exists>x. m = Inr x \<and> f x = Inr y)"
  by (cases m) (simp_all add: ebind_def)

lemma ebind_eq_Inl: "ebind m f = Inl e \<longleftrightarrow> m = Inl e \<or> (\<exists>x. m = Inr x \<and> f x = Inl e)"
  by (cases m) (simp_all add: ebind_def)

lemma item_eq_Inr: "item k v = Inr x \<longleftrightarrow> v = Some x"
  by (cases v) (simp_all add: item_def)

lemma item_eq_Inl: "item k v = Inl e \<longleftrightarrow> v = None \<and> e = KeyError k"
  by (cases v) (auto simp: item_def)

lemma py_index_Inr: "(\<exists>x. py_index xs i = Inr x) \<longleftrightarrow> in_range xs i"
  by (auto simp: py_index_def in_range_def)

lemma py_index_Inl: "py_index xs i = Inl e \<longleftrightarrow> \<not> in_range xs i \<and> e = IndexError"
  by (auto simp: py_index_def in_range_def)

lemma py_index_val: "in_range xs i \<Longrightarrow>
   py_index xs i = Inr (if 0 \<le> i then xs ! nat i else xs ! nat (int (length xs) + i))"
  by (auto simp: py_index_def in_range_def)

lemma file_loop_Inr:
  "file_loop dn es acc = Inr fs \<longleftrightarrow>
     (\<forall>e \<in> set es. in_range dn (snd e)) \<and> fs = acc @ map (file_of dn) es"
proof (induction es arbitrary: acc)
  case Nil
  show ?case by auto
next
  case (Cons e es)
  show ?case
  proof (cases "in_range dn (snd e)")
    case True
    then show ?thesis
      using Cons.IH [of "acc @ [file_of dn e]"]
      by (simp add: py_index_val file_of_def)
  next
    case False
    then have "py_index dn (snd e) = Inl IndexError" by (simp add: py_index_Inl)
    then show ?thesis using False by simp
  qed
qed

lemma file_loop_Inl:
  "file_loop dn es acc = Inl err \<longleftrightarrow> (\<exists>e \<in> set es. \<not> in_range dn (snd e)) \<and> err = IndexError"
proof (induction es arbitrary: acc)
  case Nil
  show ?case by auto
next
  case (Cons e es)
  show ?case
  proof (cases "in_range dn (snd e)")
    case True
    then show ?thesis
      using Cons.IH [of "acc @ [file_of dn e]"]
      by (simp add: py_index_val file_of_def)
  next
    case False
    then have "py_index dn (snd e) = Inl IndexError" by (simp add: py_index_Inl)
    then show ?thesis using False by auto
  qed
qed

lemma dir_loop_eq: "dir_loop dn acc = acc @ map (\<lambda>d. \<lparr>f_name = Some d, f_type = Dir\<rparr>) dn"
  by (induction dn arbitrary: acc) simp_all

lemma header_files_Inr:
  "header_files h = Inr fs \<longleftrightarrow>
     (\<exists>dn bn di. DIRNAMES h = Some dn \<and> BASENAMES h = Some bn \<and> DIRINDEXES h = Some di
        \<and> indexes_ok h \<and> fs = manifest dn bn di)"
  unfolding header_files_def ebind_eq_Inr item_eq_Inr file_loop_Inr dir_loop_eq
    indexes_ok_def manifest_def
  by (auto simp: get_list_def)

lemma header_files_IndexError:
  "header_files h = Inl IndexError \<longleftrightarrow>
     (\<exists>dn bn di. DIRNAMES h = Some dn \<and> BASENAMES h = Some bn \<and> DIRINDEXES h = Some di)
     \<and> \<not> indexes_ok h"
  unfolding header_files_def ebind_eq_Inl item_eq_Inl item_eq_Inr file_loop_Inl
    indexes_ok_def
  by (fastforce simp: get_list_def)

lemma header_to_filelists_Inr:
  "header_to_filelists h sha = Inr (nerv, pkg) \<longleftrightarrow>
     (\<exists>name arch ver fs. NAME h = Some name \<and> ARCH h = Some arch \<and> VERSION h = Some ver
        \<and> header_files h = Inr fs
        \<and> nerv = (Some name, EPOCH h, RELEASE h, Some ver)
        \<and> pkg = \<lparr>fl_pkgid = sha, fl_name = name, fl_arch = arch,
                  fl_version = \<lparr>v_ver = Some ver, v_rel = RELEASE h, v_epoch = EPOCH h\<rparr>,
                  fl_files = fs\<rparr>)"
  unfolding header_to_filelists_def Let_def ebind_eq_Inr item_eq_Inr
  by auto

lemma header_to_filelists_IndexError:
  "header_to_filelists h sha = Inl IndexError \<longleftrightarrow>
     NAME h \<noteq> None \<and> ARCH h \<noteq> None \<and> VERSION h \<noteq> None \<and> header_files h = Inl IndexError"
  unfolding header_to_filelists_def Let_def ebind_eq_Inl item_eq_Inl item_eq_Inr
  by auto

lemma header_to_primary_Inr:
  "header_to_primary rf h sha m loc = Inr (nerv, p) \<longleftrightarrow>
     (\<exists>name arch summary description build_time url ver pd rd od fs.
        NAME h = Some name \<and> ARCH h = Some arch \<and> SUMMARY h = Some summary
        \<and> DESCRIPTION h = Some description \<and> BUILDTIME h = Some build_time
        \<and> URL h = Some url \<and> VERSION h = Some ver
        \<and> provides_loop rf
              (zip3 (get_list (PROVIDENAME h)) (get_list (PROVIDEVERSION h))
                 (get_list (PROVIDEFLAGS h))) [] = Inr pd
        \<and> requires_loop rf
              (zip3 (get_list (REQUIRENAME h)) (get_list (REQUIREVERSION h))
                 (get_list (REQUIREFLAGS h))) [] = Inr rd
        \<and> obsoletes_loop rf
              (zip3 (get_list (OBSOLETENAME h)) (get_list (OBSOLETEVERSION h))
                 (get_list (OBSOLETEFLAGS h))) [] = Inr od
        \<and> header_files h = Inr fs
        \<and> nerv = (Some name, EPOCH h, RELEASE h, Some ver)
        \<and> p = \<lparr>p_checksum = Some sha, p_name = Some name, p_arch = Some arch,
                p_version = \<lparr>v_ver = Some ver, v_rel = RELEASE h, v_epoch = EPOCH h\<rparr>,
                p_summary = Some summary, p_description = Some description,
                p_packager = PACKAGER h, p_url = Some url,
                p_file_time = py_str (py_int m), p_build_time = build_time,
                p_location = loc,
                p_format =
                  \<lparr>fmt_license = LICENSE h, fmt_vendor = VENDOR h, fmt_group = GROUP h,
                   fmt_buildhost = BUILDHOST h, fmt_sourcerpm = SOURCERPM h,
                   fmt_header_start = None, fmt_header_end = None,
                   fmt_provides = pd, fmt_requires = rd, fmt_obsoletes = od,
                   fmt_files = fs\<rparr>\<rparr>)"
  unfolding header_to_primary_def Let_def ebind_eq_Inr item_eq_Inr
  by auto

section \<open>The dependency loops\<close>

lemma parse_ver_str_ok: "(\<exists>t. parse_ver_str (Some v) = Inr t) \<longleftrightarrow> ver_ok v"
proof (cases "v = []")
  case True
  then show ?thesis by (simp add: parse_ver_str_def ver_ok_def)
next
  case False
  have "(\<exists>t. parse_ver_str (Some v) = Inr t) \<longleftrightarrow> \<not> (\<exists>e. parse_ver_str (Some v) = Inl e)"
    by (cases "parse_ver_str (Some v)") auto
  then show ?thesis using parse_ver_str_fail(1) [OF False] False by (simp add: ver_ok_def)
qed

lemma parse_ver_str_err: "parse_ver_str (Some v) = Inl e \<longleftrightarrow> \<not> ver_ok v \<and> e = cant_parse v"
proof (cases "v = []")
  case True
  then show ?thesis by (simp add: parse_ver_str_def ver_ok_def)
next
  case False
  show ?thesis
    using parse_ver_str_fail [OF False] False
    by (cases "parse_ver_str (Some v)") (auto simp: ver_ok_def)
qed

lemma requires_loop_Inr:
  "requires_loop rf es d = Inr d' \<longleftrightarrow>
     (\<forall>e \<in> set es. ver_ok (fst (snd e)))
     \<and> d' = foldl store d (map (req_of rf) (filter (\<lambda>e. \<not> rpmlib rf e) es))"
proof (induction es arbitrary: d)
  case Nil
  show ?case by auto
next
  case (Cons e es)
  show ?case
  proof (cases "parse_ver_str (Some (fst (snd e)))")
    case (Inl err)
    then have "\<not> ver_ok (fst (snd e))" using parse_ver_str_err by blast
    then show ?thesis using Inl by simp
  next
    case (Inr t)
    then have ok: "ver_ok (fst (snd e))" using parse_ver_str_ok by blast
    obtain epoch ver rel where t: "t = (epoch, ver, rel)" by (cases t) auto
    show ?thesis
      using Inr t ok Cons.IH
      by (simp add: rpmlib_def req_of_def store_def Let_def)
  qed
qed

lemma provides_loop_Inr:
  "provides_loop rf es d = Inr d' \<longleftrightarrow>
     (\<forall>e \<in> set es. ver_ok (fst (snd e))) \<and> d' = foldl store d (map (dep_of rf) es)"
proof (induction es arbitrary: d)
  case Nil
  show ?case by auto
next
  case (Cons e es)
  show ?case
  proof (cases "parse_ver_str (Some (fst (snd e)))")
    case (Inl err)
    then have "\<not> ver_ok (fst (snd e))" using parse_ver_str_err by blast
    then show ?thesis using Inl by simp
  next
    case (Inr t)
    then have ok: "ver_ok (fst (snd e))" using parse_ver_str_ok by blast
    obtain epoch ver rel where t: "t = (epoch, ver, rel)" by (cases t) auto
    show ?thesis
      using Inr t ok Cons.IH
      by (simp add: dep_of_def store_def Let_def)
  qed
qed

lemma map_of_foldl_store: "map_of (foldl store d kvs) = map_of d ++ map_of (rev kvs)"
proof (induction kvs arbitrary: d)
  case Nil
  show ?case by simp
next
  case (Cons kv kvs)
  have "map_of (foldl store d (kv # kvs)) = map_of (store d kv) ++ map_of (rev kvs)"
    using Cons [of "store d kv"] by simp
  also have "\<dots> = map_of d ++ map_of (rev (kv # kvs))"
    by (rule ext) (auto simp: store_def update_conv' map_add_def split: option.splits)
  finally show ?case .
qed

lemma header_to_primary_requires:
  assumes "header_to_primary rf h sha m loc = Inr (nerv, p)"
  shows "requires_loop rf (requires_entries h) [] = Inr (fmt_requires (p_format p))"
  using assms unfolding header_to_primary_Inr requires_entries_def by auto

lemma requires_loop_survivors:
  assumes "requires_loop rf es [] = Inr d"
  shows "requires_loop rf (filter (\<lambda>e. \<not> rpmlib rf e) es) [] = Inr d"
  using assms unfolding requires_loop_Inr by auto

lemma requires_loop_origin:
  assumes "requires_loop rf es [] = Inr d" "map_of d k = Some v"
  shows "\<exists>e \<in> set es. \<not> rpmlib rf e \<and> req_of rf e = (k, v)"
proof -
  have "map_of (rev (map (req_of rf) (filter (\<lambda>e. \<not> rpmlib rf e) es))) k = Some v"
    using assms by (simp add: requires_loop_Inr map_of_foldl_store)
  then have "(k, v) \<in> set (map (req_of rf) (filter (\<lambda>e. \<not> rpmlib rf e) es))"
    using map_of_SomeD by fastforce
  then show ?thesis by auto
qed


lemma req_of_ok:
  assumes "ver_ok (fst (snd e))"
  shows "d_pre (snd (req_of rf e)) = pre_of (snd (snd e))"
    and "d_name (snd (req_of rf e)) = fst e"
    and "d_flags (snd (req_of rf e)) = flags_to_str rf (snd (snd e))"
    and "\<exists>epoch ver rel. parse_ver_str (Some (fst (snd e))) = Inr (epoch, ver, rel)
           \<and> fst (req_of rf e) = (fst e, epoch, rel, ver)
           \<and> d_epoch (snd (req_of rf e)) = epoch \<and> d_rel (snd (req_of rf e)) = rel
           \<and> d_ver (snd (req_of rf e)) = ver"
proof -
  obtain t where "parse_ver_str (Some (fst (snd e))) = Inr t"
    using assms parse_ver_str_ok by blast
  moreover obtain epoch ver rel where "t = (epoch, ver, rel)" by (cases t) auto
  ultimately have p: "parse_ver_str (Some (fst (snd e))) = Inr (epoch, ver, rel)" by simp
  show "d_pre (snd (req_of rf e)) = pre_of (snd (snd e))"
    and "d_name (snd (req_of rf e)) = fst e"
    and "d_flags (snd (req_of rf e)) = flags_to_str rf (snd (snd e))"
    and "\<exists>epoch ver rel. parse_ver_str (Some (fst (snd e))) = Inr (epoch, ver, rel)
           \<and> fst (req_of rf e) = (fst e, epoch, rel, ver)
           \<and> d_epoch (snd (req_of rf e)) = epoch \<and> d_rel (snd (req_of rf e)) = rel
           \<and> d_ver (snd (req_of rf e)) = ver"
    using p by (simp_all add: req_of_def pre_of_def)
qed

text \<open>
  Claim C3. In a primary record \<^verbatim>\<open>header_to_primary\<close> returns, the requires dictionary
  is the one the loop builds from the entries whose flag word has no bit of
  \<^verbatim>\<open>RPMSENSE_RPMLIB\<close>: every key of the dictionary is the key of such an entry, whatever
  the names and versions of the entries with the bit, and the dictionary is empty when
  every entry has the bit.
\<close>

theorem rpmlib_requires_dropped:
  assumes "header_to_primary rf h sha m loc = Inr (nerv, p)"
  shows "requires_loop rf (survivors rf h) [] = Inr (fmt_requires (p_format p))
       \<and> (\<forall>k d. map_of (fmt_requires (p_format p)) k = Some d \<longrightarrow>
             (\<exists>e \<in> set (requires_entries h).
                snd (snd e) AND RPMSENSE_RPMLIB rf = 0
                \<and> d_name d = fst e
                \<and> (\<exists>epoch ver rel. parse_ver_str (Some (fst (snd e))) = Inr (epoch, ver, rel)
                      \<and> k = (fst e, epoch, rel, ver))))
       \<and> ((\<forall>e \<in> set (requires_entries h). snd (snd e) AND RPMSENSE_RPMLIB rf \<noteq> 0) \<longrightarrow>
             fmt_requires (p_format p) = [])"
proof -
  note loop = header_to_primary_requires [OF assms]
  have ok: "\<forall>e \<in> set (requires_entries h). ver_ok (fst (snd e))"
    using loop by (simp add: requires_loop_Inr)
  have a: "requires_loop rf (survivors rf h) [] = Inr (fmt_requires (p_format p))"
    unfolding survivors_def using loop by (rule requires_loop_survivors)
  have b: "\<exists>e \<in> set (requires_entries h).
              snd (snd e) AND RPMSENSE_RPMLIB rf = 0
              \<and> d_name d = fst e
              \<and> (\<exists>epoch ver rel. parse_ver_str (Some (fst (snd e))) = Inr (epoch, ver, rel)
                    \<and> k = (fst e, epoch, rel, ver))"
    if md: "map_of (fmt_requires (p_format p)) k = Some d" for k d
  proof -
    obtain e where e: "e \<in> set (requires_entries h)" "\<not> rpmlib rf e" "req_of rf e = (k, d)"
      using requires_loop_origin [OF loop md] by blast
    have "ver_ok (fst (snd e))" using ok e(1) by blast
    from req_of_ok(2,4) [OF this, of rf] e(3)
    have "d_name d = fst e"
      and "\<exists>epoch ver rel. parse_ver_str (Some (fst (snd e))) = Inr (epoch, ver, rel)
              \<and> k = (fst e, epoch, rel, ver)"
      by auto
    then show ?thesis using e(1,2) by (auto simp: rpmlib_def)
  qed
  have c: "fmt_requires (p_format p) = []"
    if al: "\<forall>e \<in> set (requires_entries h). snd (snd e) AND RPMSENSE_RPMLIB rf \<noteq> 0"
  proof -
    have "filter (\<lambda>e. \<not> rpmlib rf e) (requires_entries h) = []"
      using al by (auto simp: rpmlib_def filter_empty_conv)
    then show ?thesis using loop by (simp add: requires_loop_Inr)
  qed
  show ?thesis using a b c by blast
qed

section \<open>The example header\<close>

lemmas header_simps = no_header_def header_foo_def header_req_def rpmfile_of_def flags_to_str0_def

lemma requires_entries_req:
  "requires_entries header_req =
     [(''rpmlib(CompressedFileNames)'', ''3.0.4-1'', 16777226), (''libc.so.6'', '''', 16384),
      (''/bin/sh'', '''', 256)]"
  by (simp add: requires_entries_def header_simps zip3_def get_list_def)

lemma rpmlib_eval:
  "rpmlib (rpmfile_of r) (n, v, 16777226)" "\<not> rpmlib (rpmfile_of r) (n, v, 16384)"
  "\<not> rpmlib (rpmfile_of r) (n, v, 256)"
  by (simp_all add: rpmlib_def rpmfile_of_def)

lemma parse_eval:
  "parse_ver_str (Some ''3.0.4-1'') = Inr (Some ''0'', Some ''3.0.4'', Some ''1'')"
  "parse_ver_str (Some '''') = Inr (None, None, None)"
  by (simp_all add: parse_ver_str_def match_ver_def match_body_def is_digit_def not_dash_def)

lemma header_files_foo:
  "header_files header_req =
     Inr [\<lparr>f_name = Some ''/usr/bin/foo'', f_type = File\<rparr>, \<lparr>f_name = Some ''/usr/bin/'', f_type = Dir\<rparr>]"
  by (simp add: header_files_def header_simps item_def ebind_def py_index_def)

lemma requires_req:
  "requires_loop (rpmfile_of r) (requires_entries header_req) [] =
     Inr [((''libc.so.6'', None, None, None),
           \<lparr>d_name = ''libc.so.6'', d_epoch = None, d_rel = None, d_ver = None,
            d_flags = None, d_pre = None\<rparr>),
          ((''/bin/sh'', None, None, None),
           \<lparr>d_name = ''/bin/sh'', d_epoch = None, d_rel = None, d_ver = None,
            d_flags = None, d_pre = Some ''1''\<rparr>)]"
  by (simp add: requires_entries_req parse_eval rpmfile_of_def flags_to_str0_def Let_def)

lemma header_to_primary_req:
  "\<exists>nerv p. header_to_primary (rpmfile_of r) header_req sha m loc = Inr (nerv, p)"
  unfolding header_to_primary_Inr
  using requires_req [of r] header_files_foo
  by (simp add: requires_entries_def header_simps zip3_def get_list_def obsoletes_loop_def)

text \<open>
  The theorem at the header with three requires entries: the dictionary is the one the
  loop builds from the two entries that are not internal to rpmlib, and it has no entry
  under the key of the internal one.
\<close>

theorem rpmlib_requires_dropped_witness:
  "\<exists>nerv p.
     header_to_primary (rpmfile_of no_reader) header_req ''5f2a'' 100 ''foo.rpm'' = Inr (nerv, p)
     \<and> requires_loop (rpmfile_of no_reader) [(''libc.so.6'', '''', 16384), (''/bin/sh'', '''', 256)] []
         = Inr (fmt_requires (p_format p))
     \<and> map_of (fmt_requires (p_format p))
          (''rpmlib(CompressedFileNames)'', Some ''0'', Some ''1'', Some ''3.0.4'') = None"
proof -
  let ?rf = "rpmfile_of no_reader"
  obtain nerv p where
    hp: "header_to_primary ?rf header_req ''5f2a'' 100 ''foo.rpm'' = Inr (nerv, p)"
    using header_to_primary_req by blast
  note t = rpmlib_requires_dropped [OF hp]
  have s: "survivors ?rf header_req = [(''libc.so.6'', '''', 16384), (''/bin/sh'', '''', 256)]"
    by (simp add: survivors_def requires_entries_req rpmlib_eval)
  have a: "requires_loop ?rf [(''libc.so.6'', '''', 16384), (''/bin/sh'', '''', 256)] []
      = Inr (fmt_requires (p_format p))"
    using t s by simp
  have b: "map_of (fmt_requires (p_format p))
      (''rpmlib(CompressedFileNames)'', Some ''0'', Some ''1'', Some ''3.0.4'') = None"
  proof (rule ccontr)
    assume "map_of (fmt_requires (p_format p))
      (''rpmlib(CompressedFileNames)'', Some ''0'', Some ''1'', Some ''3.0.4'') \<noteq> None"
    then obtain d where "map_of (fmt_requires (p_format p))
      (''rpmlib(CompressedFileNames)'', Some ''0'', Some ''1'', Some ''3.0.4'') = Some d" by auto
    from conjunct1 [OF conjunct2 [OF t], rule_format, OF this]
    obtain e where e: "e \<in> set (requires_entries header_req)"
      "snd (snd e) AND RPMSENSE_RPMLIB ?rf = 0" "fst e = ''rpmlib(CompressedFileNames)''"
      by auto
    have "e = (''rpmlib(CompressedFileNames)'', ''3.0.4-1'', 16777226)"
      using e(1,3) by (auto simp: requires_entries_req)
    then show False using e(2) by (simp add: rpmfile_of_def)
  qed
  show ?thesis using hp a b by (intro exI [of _ nerv] exI [of _ p]) simp
qed



section \<open>One file, no dependencies\<close>

lemma header_files_one_file:
  assumes "BASENAMES h = Some [''foo'']" "DIRNAMES h = Some [''/usr/bin/'']"
    "DIRINDEXES h = Some [0]"
  shows "header_files h = Inr foo_manifest"
  using assms
  by (simp add: header_files_def item_def ebind_def py_index_def foo_manifest_def)

text \<open>
  Claim C5. For a header whose BASENAMES is ['foo'], DIRNAMES is ['/usr/bin/'] and
  DIRINDEXES is [0], and whose nine dependency arrays are empty or absent: whenever the
  two mappers return, they return the same identity, each record carries that identity
  in its own fields, and each manifest is the file entry \<^verbatim>\<open>/usr/bin/foo\<close> followed by the
  directory entry \<^verbatim>\<open>/usr/bin/\<close>. They do return when the scalar keys they read with
  \<^verbatim>\<open>header[...]\<close> are present.
\<close>

theorem one_file_header:
  assumes "BASENAMES h = Some [''foo'']" "DIRNAMES h = Some [''/usr/bin/'']"
    "DIRINDEXES h = Some [0]" "no_dependencies h"
  shows "(\<forall>n1 p n2 f.
            header_to_primary rf h sha m loc = Inr (n1, p)
            \<and> header_to_filelists h sha = Inr (n2, f) \<longrightarrow>
              n1 = n2
              \<and> (p_name p, v_epoch (p_version p), v_rel (p_version p), v_ver (p_version p)) = n1
              \<and> (Some (fl_name f), v_epoch (fl_version f), v_rel (fl_version f),
                   v_ver (fl_version f)) = n2
              \<and> fmt_files (p_format p) = foo_manifest
              \<and> fl_files f = foo_manifest)
       \<and> (NAME h \<noteq> None \<and> ARCH h \<noteq> None \<and> SUMMARY h \<noteq> None \<and> DESCRIPTION h \<noteq> None
            \<and> BUILDTIME h \<noteq> None \<and> URL h \<noteq> None \<and> VERSION h \<noteq> None \<longrightarrow>
              (\<exists>n p f. header_to_primary rf h sha m loc = Inr (n, p)
                 \<and> header_to_filelists h sha = Inr (n, f)))"
proof -
  note fs = header_files_one_file [OF assms(1-3)]
  have a: "n1 = n2
      \<and> (p_name p, v_epoch (p_version p), v_rel (p_version p), v_ver (p_version p)) = n1
      \<and> (Some (fl_name f), v_epoch (fl_version f), v_rel (fl_version f),
           v_ver (fl_version f)) = n2
      \<and> fmt_files (p_format p) = foo_manifest \<and> fl_files f = foo_manifest"
    if hp: "header_to_primary rf h sha m loc = Inr (n1, p)"
      and hf: "header_to_filelists h sha = Inr (n2, f)" for n1 p n2 f
    using hp hf fs unfolding header_to_primary_Inr header_to_filelists_Inr by auto
  have b: "\<exists>n p f. header_to_primary rf h sha m loc = Inr (n, p)
      \<and> header_to_filelists h sha = Inr (n, f)"
    if "NAME h \<noteq> None \<and> ARCH h \<noteq> None \<and> SUMMARY h \<noteq> None \<and> DESCRIPTION h \<noteq> None
            \<and> BUILDTIME h \<noteq> None \<and> URL h \<noteq> None \<and> VERSION h \<noteq> None"
    using that assms(4) fs
    unfolding header_to_primary_Inr header_to_filelists_Inr no_dependencies_def
    by (auto simp: zip3_def obsoletes_loop_def)
  show ?thesis using a b by blast
qed

lemma header_foo_fields:
  "BASENAMES header_foo = Some [''foo'']" "DIRNAMES header_foo = Some [''/usr/bin/'']"
  "DIRINDEXES header_foo = Some [0]" "no_dependencies header_foo"
  "NAME header_foo = Some ''foo''" "ARCH header_foo = Some ''x86_64''"
  "SUMMARY header_foo \<noteq> None" "DESCRIPTION header_foo \<noteq> None"
  "BUILDTIME header_foo \<noteq> None" "URL header_foo \<noteq> None" "VERSION header_foo = Some ''1.0''"
  "EPOCH header_foo = None" "RELEASE header_foo = Some ''1''"
  by (simp_all add: header_simps no_dependencies_def get_list_def)

text \<open>The theorem at the example header.\<close>

theorem one_file_header_witness:
  "\<exists>p f.
     header_to_primary (rpmfile_of no_reader) header_foo ''5f2a'' 100 ''foo.rpm''
       = Inr ((Some ''foo'', None, Some ''1'', Some ''1.0''), p)
     \<and> header_to_filelists header_foo ''5f2a''
       = Inr ((Some ''foo'', None, Some ''1'', Some ''1.0''), f)
     \<and> fmt_files (p_format p) = foo_manifest \<and> fl_files f = foo_manifest"
proof -
  note t = one_file_header [OF header_foo_fields(1-4),
      of "rpmfile_of no_reader" "''5f2a''" 100 "''foo.rpm''"]
  obtain n p f where
    s: "header_to_primary (rpmfile_of no_reader) header_foo ''5f2a'' 100 ''foo.rpm'' = Inr (n, p)"
      "header_to_filelists header_foo ''5f2a'' = Inr (n, f)"
    using conjunct2 [OF t] header_foo_fields by auto
  have n: "n = (Some ''foo'', None, Some ''1'', Some ''1.0'')"
    using s(2) header_foo_fields unfolding header_to_filelists_Inr by auto
  have "fmt_files (p_format p) = foo_manifest \<and> fl_files f = foo_manifest"
    using conjunct1 [OF t, rule_format, of n p n f] s by simp
  then show ?thesis using s n by (intro exI [of _ p] exI [of _ f]) simp
qed

section \<open>When the header mappers return\<close>

lemma requires_loop_Inl:
  "requires_loop rf es d = Inl err \<Longrightarrow> \<exists>v. err = cant_parse v"
proof (induction es arbitrary: d)
  case Nil
  then show ?case by simp
next
  case (Cons e es)
  show ?case
  proof (cases "parse_ver_str (Some (fst (snd e)))")
    case (Inl x)
    then have "err = x" using Cons.prems by simp
    moreover have "x = cant_parse (fst (snd e))" using Inl parse_ver_str_err by blast
    ultimately show ?thesis by blast
  next
    case (Inr t)
    obtain epoch ver rel where t: "t = (epoch, ver, rel)" by (cases t) auto
    show ?thesis using Cons.prems Inr t Cons.IH
      by (auto simp: Let_def split: if_splits)
  qed
qed

lemma provides_loop_Inl:
  "provides_loop rf es d = Inl err \<Longrightarrow> \<exists>v. err = cant_parse v"
proof (induction es arbitrary: d)
  case Nil
  then show ?case by simp
next
  case (Cons e es)
  show ?case
  proof (cases "parse_ver_str (Some (fst (snd e)))")
    case (Inl x)
    then have "err = x" using Cons.prems by simp
    moreover have "x = cant_parse (fst (snd e))" using Inl parse_ver_str_err by blast
    ultimately show ?thesis by blast
  next
    case (Inr t)
    obtain epoch ver rel where t: "t = (epoch, ver, rel)" by (cases t) auto
    show ?thesis using Cons.prems Inr t Cons.IH
      by (auto simp: Let_def)
  qed
qed

lemma loop_not_IndexError:
  "provides_loop rf es d \<noteq> Inl IndexError" "requires_loop rf es d' \<noteq> Inl IndexError"
  "obsoletes_loop rf es d \<noteq> Inl IndexError"
  using provides_loop_Inl requires_loop_Inl
  by (fastforce simp: cant_parse_def obsoletes_loop_def)+

lemma header_to_primary_IndexError:
  assumes "header_to_primary rf h sha m loc = Inl IndexError"
  shows "header_files h = Inl IndexError"
  using assms loop_not_IndexError [of rf]
  unfolding header_to_primary_def Let_def ebind_eq_Inl item_eq_Inl
  by auto

lemma isl_header_to_filelists:
  "\<not> isl (header_to_filelists h sha) \<longleftrightarrow>
     NAME h \<noteq> None \<and> ARCH h \<noteq> None \<and> VERSION h \<noteq> None \<and> tables_present h \<and> indexes_ok h"
proof -
  have "\<not> isl (header_to_filelists h sha) \<longleftrightarrow> (\<exists>nerv pkg. header_to_filelists h sha = Inr (nerv, pkg))"
    by (cases "header_to_filelists h sha") auto
  then show ?thesis
    unfolding header_to_filelists_Inr header_files_Inr tables_present_def by auto
qed

lemma isl_header_to_primary:
  "\<not> isl (header_to_primary rf h sha m loc) \<longleftrightarrow>
     NAME h \<noteq> None \<and> ARCH h \<noteq> None \<and> SUMMARY h \<noteq> None \<and> DESCRIPTION h \<noteq> None
     \<and> BUILDTIME h \<noteq> None \<and> URL h \<noteq> None \<and> VERSION h \<noteq> None
     \<and> versions_ok h \<and> tables_present h \<and> indexes_ok h"
proof -
  have "\<not> isl (header_to_primary rf h sha m loc)
      \<longleftrightarrow> (\<exists>nerv p. header_to_primary rf h sha m loc = Inr (nerv, p))"
    by (cases "header_to_primary rf h sha m loc") auto
  then show ?thesis
    unfolding header_to_primary_Inr header_files_Inr tables_present_def versions_ok_def
      provides_entries_def requires_entries_def obsoletes_entries_def obsoletes_loop_def
      provides_loop_Inr requires_loop_Inr
    by auto
qed

text \<open>
  Claim C9 says that a header containing an out-of-range directory index makes manifest
  construction fail. The index 5 is out of range of a directory table of one name, and
  with no base name to pair it with it is never looked up: both mappers return.
\<close>

theorem stray_index_counterexample:
  "DIRINDEXES header_stray = Some [5] \<and> DIRNAMES header_stray = Some [''/usr/bin/'']
   \<and> \<not> in_range [''/usr/bin/''] 5
   \<and> header_files header_stray = Inr [\<lparr>f_name = Some ''/usr/bin/'', f_type = Dir\<rparr>]
   \<and> header_to_filelists header_stray ''5f2a''
       = Inr ((Some ''foo'', None, Some ''1'', Some ''1.0''),
              \<lparr>fl_pkgid = ''5f2a'', fl_name = ''foo'', fl_arch = ''x86_64'',
               fl_version = \<lparr>v_ver = Some ''1.0'', v_rel = Some ''1'', v_epoch = None\<rparr>,
               fl_files = [\<lparr>f_name = Some ''/usr/bin/'', f_type = Dir\<rparr>]\<rparr>)
   \<and> \<not> isl (header_to_primary (rpmfile_of no_reader) header_stray ''5f2a'' 100 ''foo.rpm'')"
proof -
  have f: "header_files header_stray = Inr [\<lparr>f_name = Some ''/usr/bin/'', f_type = Dir\<rparr>]"
    by (simp add: header_files_def header_stray_def header_simps item_def ebind_def)
  have a: "header_to_filelists header_stray ''5f2a''
       = Inr ((Some ''foo'', None, Some ''1'', Some ''1.0''),
              \<lparr>fl_pkgid = ''5f2a'', fl_name = ''foo'', fl_arch = ''x86_64'',
               fl_version = \<lparr>v_ver = Some ''1.0'', v_rel = Some ''1'', v_epoch = None\<rparr>,
               fl_files = [\<lparr>f_name = Some ''/usr/bin/'', f_type = Dir\<rparr>]\<rparr>)"
    unfolding header_to_filelists_Inr f by (simp add: header_stray_def header_simps)
  have b: "\<not> isl (header_to_primary (rpmfile_of no_reader) header_stray ''5f2a'' 100 ''foo.rpm'')"
    unfolding isl_header_to_primary
    by (simp add: header_stray_def header_simps versions_ok_def provides_entries_def
        requires_entries_def obsoletes_entries_def zip3_def get_list_def tables_present_def
        indexes_ok_def)
  have c: "DIRINDEXES header_stray = Some [5] \<and> DIRNAMES header_stray = Some [''/usr/bin/'']
      \<and> \<not> in_range [''/usr/bin/''] 5"
    by (simp add: header_stray_def header_simps in_range_def)
  show ?thesis using a b c f by simp
qed

text \<open>
  Claim C9, amended. The manifest loop reads \<^verbatim>\<open>dirnames[i]\<close> for the indexes that
  \<^verbatim>\<open>zip\<close> pairs with a base name, and an index is in range from minus the length up to
  the length. When every paired index is in range, no mapper raises IndexError, and a
  mapper returns exactly when, besides, the keys it reads are present (and, for
  \<^verbatim>\<open>header_to_primary\<close>, every dependency version is accepted). When the three tables
  are present and a paired index is out of range, the manifest loop raises IndexError
  and both mappers fail.
\<close>

theorem manifest_lookup:
  "(indexes_ok h \<longrightarrow>
      header_files h \<noteq> Inl IndexError \<and> header_to_filelists h sha \<noteq> Inl IndexError
      \<and> header_to_primary rf h sha m loc \<noteq> Inl IndexError)
   \<and> (\<not> isl (header_to_filelists h sha) \<longleftrightarrow>
        NAME h \<noteq> None \<and> ARCH h \<noteq> None \<and> VERSION h \<noteq> None
        \<and> tables_present h \<and> indexes_ok h)
   \<and> (\<not> isl (header_to_primary rf h sha m loc) \<longleftrightarrow>
        NAME h \<noteq> None \<and> ARCH h \<noteq> None \<and> SUMMARY h \<noteq> None \<and> DESCRIPTION h \<noteq> None
        \<and> BUILDTIME h \<noteq> None \<and> URL h \<noteq> None \<and> VERSION h \<noteq> None
        \<and> versions_ok h \<and> tables_present h \<and> indexes_ok h)
   \<and> (tables_present h \<and> \<not> indexes_ok h \<longrightarrow>
        header_files h = Inl IndexError \<and> isl (header_to_filelists h sha)
        \<and> isl (header_to_primary rf h sha m loc))"
proof -
  have a: "header_files h \<noteq> Inl IndexError \<and> header_to_filelists h sha \<noteq> Inl IndexError
      \<and> header_to_primary rf h sha m loc \<noteq> Inl IndexError" if "indexes_ok h"
    using that header_files_IndexError [of h] header_to_filelists_IndexError [of h sha]
      header_to_primary_IndexError [of rf h sha m loc]
    by auto
  have b: "header_files h = Inl IndexError \<and> isl (header_to_filelists h sha)
        \<and> isl (header_to_primary rf h sha m loc)" if "tables_present h \<and> \<not> indexes_ok h"
    using that header_files_IndexError [of h] isl_header_to_filelists [of h sha]
      isl_header_to_primary [of rf h sha m loc]
    by (auto simp: tables_present_def)
  show ?thesis
    using a b isl_header_to_filelists [of h sha] isl_header_to_primary [of rf h sha m loc]
    by blast
qed

text \<open>The theorem at the example header, and at the same header with DIRINDEXES [1].\<close>

theorem manifest_lookup_witness:
  "indexes_ok header_foo
   \<and> \<not> isl (header_to_filelists header_foo ''5f2a'')
   \<and> \<not> isl (header_to_primary (rpmfile_of no_reader) header_foo ''5f2a'' 100 ''foo.rpm'')
   \<and> tables_present header_bad \<and> \<not> indexes_ok header_bad
   \<and> header_files header_bad = Inl IndexError
   \<and> isl (header_to_filelists header_bad ''5f2a'')
   \<and> isl (header_to_primary (rpmfile_of no_reader) header_bad ''5f2a'' 100 ''foo.rpm'')"
proof -
  have ok: "indexes_ok header_foo" "tables_present header_foo" "versions_ok header_foo"
    by (simp_all add: indexes_ok_def tables_present_def versions_ok_def provides_entries_def
        requires_entries_def obsoletes_entries_def zip3_def header_simps get_list_def
        in_range_def)
  have bad: "tables_present header_bad" "\<not> indexes_ok header_bad"
    by (simp_all add: indexes_ok_def tables_present_def header_bad_def header_simps
        get_list_def in_range_def)
  note t1 = manifest_lookup [of header_foo "''5f2a''" "rpmfile_of no_reader" 100 "''foo.rpm''"]
  note t2 = manifest_lookup [of header_bad "''5f2a''" "rpmfile_of no_reader" 100 "''foo.rpm''"]
  have a: "\<not> isl (header_to_filelists header_foo ''5f2a'')"
    using t1 ok header_foo_fields by simp
  have b: "\<not> isl (header_to_primary (rpmfile_of no_reader) header_foo ''5f2a'' 100 ''foo.rpm'')"
    using t1 ok header_foo_fields by simp
  have c: "header_files header_bad = Inl IndexError
   \<and> isl (header_to_filelists header_bad ''5f2a'')
   \<and> isl (header_to_primary (rpmfile_of no_reader) header_bad ''5f2a'' 100 ''foo.rpm'')"
    using t2 bad by blast
  show ?thesis using ok bad a b c by simp
qed

text \<open>
  Claim C8 says that no constructor yields a record whose identity has the empty name.
  \<^verbatim>\<open>header_to_filelists\<close> does, for a header whose NAME is the empty text.
\<close>

theorem empty_name_counterexample:
  "header_to_filelists header_anon ''5f2a''
     = Inr ((Some '''', None, Some ''1'', Some ''1.0''),
            \<lparr>fl_pkgid = ''5f2a'', fl_name = '''', fl_arch = ''x86_64'',
             fl_version = \<lparr>v_ver = Some ''1.0'', v_rel = Some ''1'', v_epoch = None\<rparr>,
             fl_files = foo_manifest\<rparr>)"
proof -
  have "header_files header_anon = Inr foo_manifest"
    by (rule header_files_one_file) (simp_all add: header_anon_def header_simps)
  then show ?thesis
    unfolding header_to_filelists_Inr by (simp add: header_anon_def header_simps)
qed

section \<open>The package constructors of the parsers\<close>

lemma text_of_Inr: "text_of e = Inr t \<longleftrightarrow> (\<exists>x. e = Some x \<and> t = el_text x)"
  by (cases e) (auto simp: text_of_def)

lemma attrib_of_Inr: "attrib_of e k = Inr v \<longleftrightarrow> (\<exists>x. e = Some x \<and> map_of (el_attrib x) k = Some v)"
  by (cases e) (auto simp: attrib_of_def item_eq_Inr)

lemma version_of_Inr:
  "version_of e = Inr v \<longleftrightarrow>
     (\<exists>x ver rel epoch. e = Some x \<and> map_of (el_attrib x) ''ver'' = Some ver
        \<and> map_of (el_attrib x) ''rel'' = Some rel \<and> map_of (el_attrib x) ''epoch'' = Some epoch
        \<and> v = \<lparr>v_ver = Some ver, v_rel = Some rel, v_epoch = Some epoch\<rparr>)"
  unfolding version_of_def ebind_eq_Inr attrib_of_Inr by auto

lemma filelists_package_Inr:
  "filelists_package child = Inr (nerv, pkg) \<longleftrightarrow>
     (\<exists>pkgid name arch version.
        map_of (el_attrib child) ''pkgid'' = Some pkgid
        \<and> map_of (el_attrib child) ''name'' = Some name
        \<and> map_of (el_attrib child) ''arch'' = Some arch
        \<and> version_of (find_el (qname ns_filelists ''version'') child) = Inr version
        \<and> nerv = (Some name, v_epoch version, v_rel version, v_ver version)
        \<and> pkg = \<lparr>fl_pkgid = pkgid, fl_name = name, fl_arch = arch, fl_version = version,
                  fl_files = map file_node (findall (qname ns_filelists ''file'') child)\<rparr>)"
  unfolding filelists_package_def Let_def ebind_eq_Inr item_eq_Inr by auto

lemma deref_Inr: "deref e = Inr x \<longleftrightarrow> e = Some x"
  by (cases e) (auto simp: deref_def)

lemma primary_package_Inr:
  "primary_package child = Inr (nerv, p) \<longleftrightarrow>
     (\<exists>checksum name arch summary description packager url file_time build_time location
         version fmt license vendor grp buildhost sourcerpm header_start header_end pd rd od.
        text_of (find_el (qname ns_primary ''checksum'') child) = Inr checksum
        \<and> text_of (find_el (qname ns_primary ''name'') child) = Inr name
        \<and> text_of (find_el (qname ns_primary ''arch'') child) = Inr arch
        \<and> text_of (find_el (qname ns_primary ''summary'') child) = Inr summary
        \<and> text_of (find_el (qname ns_primary ''description'') child) = Inr description
        \<and> text_of (find_el (qname ns_primary ''packager'') child) = Inr packager
        \<and> text_of (find_el (qname ns_primary ''url'') child) = Inr url
        \<and> attrib_of (find_el (qname ns_primary ''time'') child) ''file'' = Inr file_time
        \<and> attrib_of (find_el (qname ns_primary ''time'') child) ''build'' = Inr build_time
        \<and> attrib_of (find_el (qname ns_primary ''location'') child) ''href'' = Inr location
        \<and> version_of (find_el (qname ns_primary ''version'') child) = Inr version
        \<and> find_el (qname ns_primary ''format'') child = Some fmt
        \<and> text_of (find_el (qname ns_rpm ''license'') fmt) = Inr license
        \<and> text_of (find_el (qname ns_rpm ''vendor'') fmt) = Inr vendor
        \<and> text_of (find_el (qname ns_rpm ''group'') fmt) = Inr grp
        \<and> text_of (find_el (qname ns_rpm ''buildhost'') fmt) = Inr buildhost
        \<and> text_of (find_el (qname ns_rpm ''sourcerpm'') fmt) = Inr sourcerpm
        \<and> attrib_of (find_el (qname ns_rpm ''header-range'') fmt) ''start'' = Inr header_start
        \<and> attrib_of (find_el (qname ns_rpm ''header-range'') fmt) ''end'' = Inr header_end
        \<and> xml_provides_loop (block_entries (find_el (qname ns_rpm ''provides'') fmt)) [] = Inr pd
        \<and> xml_requires_loop (block_entries (find_el (qname ns_rpm ''requires'') fmt)) [] = Inr rd
        \<and> xml_obsoletes_loop (block_entries (find_el (qname ns_rpm ''obsoletes'') fmt)) [] = Inr od
        \<and> nerv = (name, v_epoch version, v_rel version, v_ver version)
        \<and> p = \<lparr>p_checksum = checksum, p_name = name, p_arch = arch, p_version = version,
                p_summary = summary, p_description = description, p_packager = packager,
                p_url = url, p_file_time = file_time, p_build_time = build_time,
                p_location = location,
                p_format =
                  \<lparr>fmt_license = license, fmt_vendor = vendor, fmt_group = grp,
                   fmt_buildhost = buildhost, fmt_sourcerpm = sourcerpm,
                   fmt_header_start = Some header_start, fmt_header_end = Some header_end,
                   fmt_provides = pd, fmt_requires = rd, fmt_obsoletes = od,
                   fmt_files = map file_node (findall (qname ns_primary ''file'') fmt)\<rparr>\<rparr>)"
  unfolding primary_package_def Let_def ebind_eq_Inr deref_Inr by auto

lemma primary_package_name:
  assumes "primary_package child = Inr (nerv, p)"
  shows "\<exists>e. find_el (qname ns_primary ''name'') child = Some e \<and> fst nerv = el_text e
           \<and> p_name p = el_text e"
  using assms unfolding primary_package_Inr text_of_Inr by auto

lemma isl_filelists_package:
  "isl (filelists_package c) \<longleftrightarrow>
     \<not> (map_of (el_attrib c) ''pkgid'' \<noteq> None \<and> map_of (el_attrib c) ''name'' \<noteq> None
        \<and> map_of (el_attrib c) ''arch'' \<noteq> None
        \<and> \<not> isl (version_of (find_el (qname ns_filelists ''version'') c)))"
proof -
  have "\<not> isl (filelists_package c) \<longleftrightarrow> (\<exists>nerv pkg. filelists_package c = Inr (nerv, pkg))"
    by (cases "filelists_package c") auto
  moreover have "\<not> isl (version_of e) \<longleftrightarrow> (\<exists>v. version_of e = Inr v)" for e
    by (cases "version_of e") auto
  ultimately show ?thesis
    unfolding filelists_package_Inr by auto
qed

text \<open>
  Claim C8, amended. No constructor looks at the name it reads. The header mappers
  return for a header with an empty NAME exactly when they return for the same header
  with any other NAME; the identity and the record carry NAME as it is; and an absent
  NAME raises KeyError. The package constructor of \<^verbatim>\<open>parse_filelists\<close> returns for an
  empty \<^verbatim>\<open>name\<close> attribute exactly when it returns for any other, and the constructors of
  both parsers put the name of the document (the attribute, the text of the name
  element) into the identity and the record.
\<close>

theorem names_not_validated:
  "isl (header_to_filelists (h\<lparr>NAME := Some n\<rparr>) sha)
     = isl (header_to_filelists (h\<lparr>NAME := Some []\<rparr>) sha)
   \<and> isl (header_to_primary rf (h\<lparr>NAME := Some n\<rparr>) sha m loc)
     = isl (header_to_primary rf (h\<lparr>NAME := Some []\<rparr>) sha m loc)
   \<and> (\<forall>nerv pkg. header_to_filelists h sha = Inr (nerv, pkg) \<longrightarrow>
         fst nerv = NAME h \<and> Some (fl_name pkg) = NAME h)
   \<and> (\<forall>nerv p. header_to_primary rf h sha m loc = Inr (nerv, p) \<longrightarrow>
         fst nerv = NAME h \<and> p_name p = NAME h)
   \<and> (NAME h = None \<longrightarrow>
         header_to_filelists h sha = Inl (KeyError ''NAME'')
         \<and> header_to_primary rf h sha m loc = Inl (KeyError ''NAME''))
   \<and> isl (filelists_package (Element t ((''name'', n) # a) x cs))
     = isl (filelists_package (Element t ((''name'', []) # a) x cs))
   \<and> (\<forall>nerv pkg. filelists_package child = Inr (nerv, pkg) \<longrightarrow>
         fst nerv = map_of (el_attrib child) ''name'' \<and> Some (fl_name pkg) = fst nerv)
   \<and> (\<forall>nerv p. primary_package child = Inr (nerv, p) \<longrightarrow>
         (\<exists>e. find_el (qname ns_primary ''name'') child = Some e \<and> fst nerv = el_text e
            \<and> p_name p = el_text e))"
proof -
  have "\<not> isl (header_to_filelists (h\<lparr>NAME := Some n\<rparr>) sha)
     \<longleftrightarrow> \<not> isl (header_to_filelists (h\<lparr>NAME := Some []\<rparr>) sha)"
    unfolding isl_header_to_filelists by (simp add: tables_present_def indexes_ok_def)
  then have a: "isl (header_to_filelists (h\<lparr>NAME := Some n\<rparr>) sha)
     = isl (header_to_filelists (h\<lparr>NAME := Some []\<rparr>) sha)"
    by blast
  have "\<not> isl (header_to_primary rf (h\<lparr>NAME := Some n\<rparr>) sha m loc)
     \<longleftrightarrow> \<not> isl (header_to_primary rf (h\<lparr>NAME := Some []\<rparr>) sha m loc)"
    unfolding isl_header_to_primary
    by (simp add: tables_present_def indexes_ok_def versions_ok_def provides_entries_def
        requires_entries_def obsoletes_entries_def)
  then have b: "isl (header_to_primary rf (h\<lparr>NAME := Some n\<rparr>) sha m loc)
     = isl (header_to_primary rf (h\<lparr>NAME := Some []\<rparr>) sha m loc)"
    by blast
  have c: "fst nerv = NAME h \<and> Some (fl_name pkg) = NAME h"
    if "header_to_filelists h sha = Inr (nerv, pkg)" for nerv pkg
    using that unfolding header_to_filelists_Inr by auto
  have d: "fst nerv = NAME h \<and> p_name p = NAME h"
    if "header_to_primary rf h sha m loc = Inr (nerv, p)" for nerv p
    using that unfolding header_to_primary_Inr by auto
  have e: "header_to_filelists h sha = Inl (KeyError ''NAME'')
         \<and> header_to_primary rf h sha m loc = Inl (KeyError ''NAME'')" if "NAME h = None"
    using that by (simp add: header_to_filelists_def header_to_primary_def item_def ebind_def)
  have f: "isl (filelists_package (Element t ((''name'', n) # a) x cs))
     = isl (filelists_package (Element t ((''name'', []) # a) x cs))"
    using isl_filelists_package [of "Element t ((''name'', n) # a) x cs"]
      isl_filelists_package [of "Element t ((''name'', []) # a) x cs"]
    by (simp add: find_el_def)
  have g: "fst nerv = map_of (el_attrib child) ''name'' \<and> Some (fl_name pkg) = fst nerv"
    if "filelists_package child = Inr (nerv, pkg)" for nerv pkg
    using that unfolding filelists_package_Inr by auto
  show ?thesis
    using a b c d e f g primary_package_name [of child] by blast
qed

text \<open>
  The theorem at the example header with the empty NAME and with no NAME, and the
  package constructor of \<^verbatim>\<open>parse_filelists\<close> at a package node whose name is empty.
\<close>

theorem names_not_validated_witness:
  "\<not> isl (header_to_filelists header_anon ''5f2a'')
   \<and> \<not> isl (header_to_primary (rpmfile_of no_reader) header_anon ''5f2a'' 100 ''foo.rpm'')
   \<and> header_to_filelists (header_foo\<lparr>NAME := None\<rparr>) ''5f2a'' = Inl (KeyError ''NAME'')
   \<and> fst (fst (projr (filelists_package package_anon))) = Some []
   \<and> \<not> isl (filelists_package package_anon)"
proof -
  have ok: "\<not> isl (header_to_filelists header_foo ''5f2a'')"
    "\<not> isl (header_to_primary (rpmfile_of no_reader) header_foo ''5f2a'' 100 ''foo.rpm'')"
    unfolding isl_header_to_filelists isl_header_to_primary
    by (simp_all add: indexes_ok_def tables_present_def versions_ok_def provides_entries_def
        requires_entries_def obsoletes_entries_def zip3_def header_simps get_list_def
        in_range_def)
  have up: "header_foo\<lparr>NAME := Some ''foo''\<rparr> = header_foo"
    "header_foo\<lparr>NAME := Some []\<rparr> = header_anon"
    by (simp_all add: header_anon_def header_simps)
  note t = names_not_validated [where h = header_foo and n = "''foo''" and sha = "''5f2a''"
      and rf = "rpmfile_of no_reader" and m = 100 and loc = "''foo.rpm''"]
  have a1: "isl (header_to_filelists (header_foo\<lparr>NAME := Some ''foo''\<rparr>) ''5f2a'')
      = isl (header_to_filelists (header_foo\<lparr>NAME := Some []\<rparr>) ''5f2a'')"
    by (rule t [THEN conjunct1])
  have a2: "isl (header_to_primary (rpmfile_of no_reader) (header_foo\<lparr>NAME := Some ''foo''\<rparr>)
        ''5f2a'' 100 ''foo.rpm'')
      = isl (header_to_primary (rpmfile_of no_reader) (header_foo\<lparr>NAME := Some []\<rparr>)
        ''5f2a'' 100 ''foo.rpm'')"
    by (rule t [THEN conjunct2, THEN conjunct1])
  have a: "\<not> isl (header_to_filelists header_anon ''5f2a'')"
    "\<not> isl (header_to_primary (rpmfile_of no_reader) header_anon ''5f2a'' 100 ''foo.rpm'')"
    using a1 a2 ok unfolding up by simp_all
  note t' = names_not_validated [where h = "header_foo\<lparr>NAME := None\<rparr>" and sha = "''5f2a''"
      and rf = "rpmfile_of no_reader" and m = 100 and loc = "''foo.rpm''"]
  have "NAME (header_foo\<lparr>NAME := None\<rparr>) = None \<longrightarrow>
         header_to_filelists (header_foo\<lparr>NAME := None\<rparr>) ''5f2a'' = Inl (KeyError ''NAME'')
         \<and> header_to_primary (rpmfile_of no_reader) (header_foo\<lparr>NAME := None\<rparr>) ''5f2a'' 100
              ''foo.rpm'' = Inl (KeyError ''NAME'')"
    by (rule t' [THEN conjunct2, THEN conjunct2, THEN conjunct2, THEN conjunct2, THEN conjunct1])
  then have b: "header_to_filelists (header_foo\<lparr>NAME := None\<rparr>) ''5f2a'' = Inl (KeyError ''NAME'')"
    by simp
  have v: "version_of (find_el (qname ns_filelists ''version'') package_anon)
      = Inr \<lparr>v_ver = Some ''1.0'', v_rel = Some ''1'', v_epoch = Some ''0''\<rparr>"
    by (simp add: package_anon_def find_el_def version_of_def attrib_of_def item_def ebind_def)
  have "\<exists>pkg. filelists_package package_anon = Inr ((Some [], Some ''0'', Some ''1'', Some ''1.0''), pkg)"
    unfolding filelists_package_Inr v by (simp add: package_anon_def)
  then have c: "fst (fst (projr (filelists_package package_anon))) = Some []"
    "\<not> isl (filelists_package package_anon)"
    by auto
  show ?thesis using a b c by simp
qed

section \<open>The modification time\<close>

















section \<open>The summary document\<close>

lemma repomd_result_ok: "well_formed c \<Longrightarrow> repomd_result c = Inr (data_of c)"
  by (auto simp: well_formed_def repomd_result_def data_of_def field_text_def href_def text_of_def
      attrib_of_def item_def ebind_def split: option.splits)

lemma repomd_result_bad:
  "\<not> well_formed c \<Longrightarrow> repomd_result c = Inl AttributeError \<or> repomd_result c = Inl (KeyError ''href'')"
  by (auto simp: well_formed_def repomd_result_def href_def text_of_def
      attrib_of_def item_def ebind_def split: option.splits)

lemma repomd_loop_ignore:
  assumes "ignorable c"
  shows "repomd_loop (xs @ c # ys) acc = repomd_loop (xs @ ys) acc"
proof (induction xs arbitrary: acc)
  case Nil
  obtain fl pr where acc: "acc = (fl, pr)" by (cases acc)
  show ?case
    using assms repomd_result_ok [of c]
    by (auto simp: acc ignorable_def typed_def typed_as_def)
next
  case (Cons x xs)
  obtain fl pr where acc: "acc = (fl, pr)" by (cases acc)
  show ?case
    using Cons.IH by (simp add: acc split: sum.splits)
qed

lemma repomd_loop_ok:
  assumes "\<forall>c \<in> set cs. typed c \<longrightarrow> well_formed c"
  shows "repomd_loop cs (fl, pr) = Inr (locator ''filelists'' cs fl, locator ''primary'' cs pr)"
  using assms
proof (induction cs arbitrary: fl pr)
  case Nil
  show ?case by (simp add: locator_def)
next
  case (Cons c cs)
  have ih: "repomd_loop cs (a, b) = Inr (locator ''filelists'' cs a, locator ''primary'' cs b)"
    for a b
    using Cons by simp
  have loc: "locator t (c # cs) d = locator t cs (if typed_as t c then Some (data_of c) else d)"
    for t d
    by (simp add: locator_def split: list.splits)
  show ?case
  proof (cases "typed c")
    case False
    then have "\<not> typed_as t c" for t by (simp add: typed_def typed_as_def)
    then show ?thesis using False ih by (simp add: loc typed_def)
  next
    case True
    then have "repomd_result c = Inr (data_of c)"
      using Cons.prems repomd_result_ok by simp
    then show ?thesis
      using True ih by (auto simp: loc typed_def typed_as_def)
  qed
qed

lemma repomd_loop_bad:
  assumes "\<exists>c \<in> set cs. typed c \<and> \<not> well_formed c"
  shows "repomd_loop cs acc = Inl AttributeError \<or> repomd_loop cs acc = Inl (KeyError ''href'')"
  using assms
proof (induction cs arbitrary: acc)
  case Nil
  then show ?case by simp
next
  case (Cons c cs)
  obtain fl pr where acc: "acc = (fl, pr)" by (cases acc)
  show ?case
  proof (cases "typed c \<and> \<not> well_formed c")
    case True
    then show ?thesis
      using repomd_result_bad [of c] by (auto simp: acc typed_def)
  next
    case False
    then have rest: "\<exists>c \<in> set cs. typed c \<and> \<not> well_formed c" using Cons.prems by auto
    note ih = Cons.IH [OF rest]
    show ?thesis
    proof (cases "typed c")
      case False
      then show ?thesis using ih [of "(fl, pr)"] by (simp add: acc typed_def)
    next
      case True
      then have "repomd_result c = Inr (data_of c)"
        using \<open>\<not> (typed c \<and> \<not> well_formed c)\<close> repomd_result_ok by simp
      then show ?thesis
        using True ih [of "(Some (data_of c), pr)"] ih [of "(fl, Some (data_of c))"]
          ih [of "(fl, pr)"]
        by (simp add: acc typed_def)
    qed
  qed
qed

lemmas repo_simps = repo_field_def repo_location_def repo_data_def repo_group_def
  repomd_ok_def repomd_group_def qname_def ns_repo_def

text \<open>
  Claim C4 says that every record of an unrecognized type is ignored without raising an
  error. A summary document with a filelists record, a primary record and a record of type
  \<^verbatim>\<open>group\<close> that has no \<^verbatim>\<open>open-checksum\<close> child: the fields of the third record are read
  before its type is looked at, and \<^verbatim>\<open>parse_repomd\<close> raises AttributeError.
\<close>

theorem unrecognized_record_counterexample:
  "typed_as ''group'' repo_group
   \<and> fromstring (pylib_of (\<lambda>data. Inr repomd_group)) ''<repomd/>'' = Inr repomd_group
   \<and> parse_repomd (pylib_of (\<lambda>data. Inr repomd_group)) ''<repomd/>'' = Inl AttributeError"
  by (simp add: typed_as_def parse_repomd_def pylib_of_def ebind_def repo_simps
      repomd_result_def find_el_def text_of_def attrib_of_def item_def)

text \<open>
  Claim C4, amended. The fields of every record that has a \<^verbatim>\<open>type\<close> attribute are read,
  whatever the type. When each such record has the five text fields and a location with
  an \<^verbatim>\<open>href\<close>, \<^verbatim>\<open>parse_repomd\<close> returns the last filelists record and the last primary
  record, each with its fields; with exactly one of each it returns both, each with the
  \<^verbatim>\<open>href\<close> of its location; a type with no record gives None for its slot. A record
  without a \<^verbatim>\<open>type\<close> attribute, and a record of another type that has all its fields,
  can be taken out of the document without changing what is returned or raised. When
  some record with a \<^verbatim>\<open>type\<close> attribute lacks a field, of whatever type, \<^verbatim>\<open>parse_repomd\<close>
  raises AttributeError or KeyError.
\<close>

theorem parse_repomd_records:
  assumes "fromstring lib data = Inr doc"
  shows "((\<forall>c \<in> set (el_children doc). typed c \<longrightarrow> well_formed c) \<longrightarrow>
            parse_repomd lib data
              = Inr (locator ''filelists'' (el_children doc) None,
                     locator ''primary'' (el_children doc) None))
       \<and> (\<forall>f p. (\<forall>c \<in> set (el_children doc). typed c \<longrightarrow> well_formed c)
              \<and> filter (typed_as ''filelists'') (el_children doc) = [f]
              \<and> filter (typed_as ''primary'') (el_children doc) = [p] \<longrightarrow>
            parse_repomd lib data = Inr (Some (data_of f), Some (data_of p))
            \<and> Some (rd_location (data_of f)) = href f
            \<and> Some (rd_location (data_of p)) = href p)
       \<and> ((\<forall>c \<in> set (el_children doc). typed c \<longrightarrow> well_formed c)
              \<and> filter (typed_as ''filelists'') (el_children doc) = [] \<longrightarrow>
            (\<exists>p. parse_repomd lib data = Inr (None, p)))
       \<and> ((\<forall>c \<in> set (el_children doc). typed c \<longrightarrow> well_formed c)
              \<and> filter (typed_as ''primary'') (el_children doc) = [] \<longrightarrow>
            (\<exists>f. parse_repomd lib data = Inr (f, None)))
       \<and> (\<forall>xs c ys. el_children doc = xs @ c # ys \<and> ignorable c \<longrightarrow>
            parse_repomd lib data = repomd_loop (xs @ ys) (None, None))
       \<and> ((\<exists>c \<in> set (el_children doc). typed c \<and> \<not> well_formed c) \<longrightarrow>
            parse_repomd lib data = Inl AttributeError
            \<or> parse_repomd lib data = Inl (KeyError ''href''))"
proof -
  let ?cs = "el_children doc"
  have p: "parse_repomd lib data = repomd_loop ?cs (None, None)"
    using assms by (simp add: parse_repomd_def ebind_def)
  have a: "parse_repomd lib data = Inr (locator ''filelists'' ?cs None, locator ''primary'' ?cs None)"
    if "\<forall>c \<in> set ?cs. typed c \<longrightarrow> well_formed c"
    using that p repomd_loop_ok by simp
  have b: "parse_repomd lib data = Inr (Some (data_of f), Some (data_of p))
            \<and> Some (rd_location (data_of f)) = href f
            \<and> Some (rd_location (data_of p)) = href p"
    if h: "(\<forall>c \<in> set ?cs. typed c \<longrightarrow> well_formed c)
              \<and> filter (typed_as ''filelists'') ?cs = [f]
              \<and> filter (typed_as ''primary'') ?cs = [p]" for f p
  proof -
    have "f \<in> set (filter (typed_as ''filelists'') ?cs)" "p \<in> set (filter (typed_as ''primary'') ?cs)"
      using h by simp_all
    then have "f \<in> set ?cs" "typed f" "p \<in> set ?cs" "typed p"
      by (auto simp: typed_def typed_as_def)
    then have "well_formed f" "well_formed p" using h by blast+
    then have "href f \<noteq> None" "href p \<noteq> None" by (simp_all add: well_formed_def)
    then have "Some (rd_location (data_of f)) = href f" "Some (rd_location (data_of p)) = href p"
      by (auto simp: data_of_def)
    then show ?thesis using a h by (simp add: locator_def)
  qed
  have c: "\<exists>p. parse_repomd lib data = Inr (None, p)"
    if "(\<forall>c \<in> set ?cs. typed c \<longrightarrow> well_formed c) \<and> filter (typed_as ''filelists'') ?cs = []"
    using that a by (simp add: locator_def)
  have d: "\<exists>f. parse_repomd lib data = Inr (f, None)"
    if "(\<forall>c \<in> set ?cs. typed c \<longrightarrow> well_formed c) \<and> filter (typed_as ''primary'') ?cs = []"
    using that a by (simp add: locator_def)
  have e: "parse_repomd lib data = repomd_loop (xs @ ys) (None, None)"
    if "?cs = xs @ c # ys \<and> ignorable c" for xs c ys
    using that p repomd_loop_ignore by simp
  have f: "parse_repomd lib data = Inl AttributeError
            \<or> parse_repomd lib data = Inl (KeyError ''href'')"
    if "\<exists>c \<in> set ?cs. typed c \<and> \<not> well_formed c"
    using repomd_loop_bad [OF that] p by simp
  show ?thesis using a b c d e f by blast
qed

text \<open>
  The theorem at a summary document with a revision element and records of the types
  \<^verbatim>\<open>filelists\<close>, \<^verbatim>\<open>primary\<close> and \<^verbatim>\<open>other\<close>.
\<close>

theorem parse_repomd_records_witness:
  "parse_repomd (pylib_of (\<lambda>data. Inr repomd_ok)) ''<repomd/>''
     = Inr (Some (data_of (repo_data ''filelists'' ''repodata/filelists.xml.gz'')),
            Some (data_of (repo_data ''primary'' ''repodata/primary.xml.gz'')))
   \<and> rd_location (data_of (repo_data ''filelists'' ''repodata/filelists.xml.gz''))
       = ''repodata/filelists.xml.gz''
   \<and> rd_location (data_of (repo_data ''primary'' ''repodata/primary.xml.gz''))
       = ''repodata/primary.xml.gz''
   \<and> ignorable (repo_data ''other'' ''repodata/other.xml.gz'')
   \<and> typed repo_group \<and> \<not> well_formed repo_group"
proof -
  let ?lib = "pylib_of (\<lambda>data. Inr repomd_ok)"
  let ?f = "repo_data ''filelists'' ''repodata/filelists.xml.gz''"
  let ?p = "repo_data ''primary'' ''repodata/primary.xml.gz''"
  have fs: "fromstring ?lib ''<repomd/>'' = Inr repomd_ok"
    by (simp add: pylib_of_def)
  have wf: "well_formed (repo_data t h)" for t h
    by (simp add: well_formed_def href_def find_el_def repo_simps)
  have ty: "typed (repo_data t h)" "typed_as t' (repo_data t h) \<longleftrightarrow> t = t'" for t h t'
    by (auto simp: typed_def typed_as_def repo_simps)
  have rev: "\<not> typed (Element (qname ns_repo ''revision'') [] (Some ''1500000000'') [])"
    by (simp add: typed_def)
  have all: "\<forall>c \<in> set (el_children repomd_ok). typed c \<longrightarrow> well_formed c"
    using wf rev by (simp add: repomd_ok_def)
  have fl: "filter (typed_as ''filelists'') (el_children repomd_ok) = [?f]"
    and pr: "filter (typed_as ''primary'') (el_children repomd_ok) = [?p]"
    using ty rev by (simp_all add: repomd_ok_def typed_def typed_as_def)
  note t = parse_repomd_records [OF fs, THEN conjunct2, THEN conjunct1, rule_format, of ?f ?p]
  have a: "parse_repomd ?lib ''<repomd/>'' = Inr (Some (data_of ?f), Some (data_of ?p))
            \<and> Some (rd_location (data_of ?f)) = href ?f
            \<and> Some (rd_location (data_of ?p)) = href ?p"
    by (rule t) (use all fl pr in simp)
  have h: "href (repo_data t h) = Some h" for t h
    by (simp add: href_def find_el_def repo_simps)
  have ig: "ignorable (repo_data ''other'' ''repodata/other.xml.gz'')"
    using wf ty by (simp add: ignorable_def)
  have g: "typed repo_group \<and> \<not> well_formed repo_group"
    by (simp add: typed_def well_formed_def href_def find_el_def repo_simps)
  show ?thesis using a h ig g by simp
qed

section \<open>The scratch directory\<close>

lemma ingest_fetch_fails:
  assumes "fetched st rf lib (fst x) = Inl e"
  shows "ingest st rf lib x w fl pr
     = (w\<lparr>next_tmp := Suc (next_tmp w), tmpdirs := tmpdirs w @ [next_tmp w],
          stdout := stdout w @ [adding (fst x)]\<rparr>, Inl e)"
  using assms
  by (auto simp: fetched_def ingest_def Let_def mkdtemp_def print_def ebind_def
      split: sum.splits)

lemma ingest_fetch_ok:
  assumes "fetched st rf lib (fst x) = Inr (h, s)"
  shows "ingest st rf lib x w fl pr
     = (w\<lparr>next_tmp := Suc (next_tmp w),
          tmpdirs := removeAll (next_tmp w) (tmpdirs w @ [next_tmp w]),
          stdout := stdout w @ [adding (fst x)]\<rparr>, merged rf h s x fl pr)"
  using assms
  by (auto simp: fetched_def merged_def ingest_def Let_def mkdtemp_def print_def rmtree_def
      ebind_def split: sum.splits)

lemma fresh_removeAll: "fresh w \<Longrightarrow> removeAll (next_tmp w) (tmpdirs w @ [next_tmp w]) = tmpdirs w"
  by (auto simp: fresh_def removeAll_id)

lemma ingest_tmpdirs:
  assumes "fresh w" "ingest st rf lib x w fl pr = (w', r)"
  shows "next_tmp w' = Suc (next_tmp w)"
    and "\<not> isl (fetched st rf lib (fst x)) \<Longrightarrow> tmpdirs w' = tmpdirs w \<and> fresh w'"
    and "isl (fetched st rf lib (fst x)) \<Longrightarrow> tmpdirs w' = tmpdirs w @ [next_tmp w] \<and> isl r"
proof -
  show "next_tmp w' = Suc (next_tmp w)"
    using assms(2) ingest_fetch_fails [of st rf lib x _ w fl pr]
      ingest_fetch_ok [of st rf lib x _ _ w fl pr]
    by (cases "fetched st rf lib (fst x)") auto
  show "tmpdirs w' = tmpdirs w \<and> fresh w'" if ni: "\<not> isl (fetched st rf lib (fst x))"
  proof -
    obtain h s where "fetched st rf lib (fst x) = Inr (h, s)"
      using ni by (cases "fetched st rf lib (fst x)") auto
    then show ?thesis
      using assms ingest_fetch_ok [of st rf lib x h s w fl pr] fresh_removeAll [OF assms(1)]
      by (auto simp: fresh_def less_Suc_eq)
  qed
  show "tmpdirs w' = tmpdirs w @ [next_tmp w] \<and> isl r" if il: "isl (fetched st rf lib (fst x))"
  proof -
    obtain e where "fetched st rf lib (fst x) = Inl e"
      using il by (cases "fetched st rf lib (fst x)") auto
    then show ?thesis
      using assms ingest_fetch_fails [of st rf lib x e w fl pr] by auto
  qed
qed

lemma ingest_loop_tmpdirs:
  assumes "fresh w" "ingest_loop st rf lib xs w fl pr = (w', r)"
  shows "(\<not> isl r \<longrightarrow> tmpdirs w' = tmpdirs w)
       \<and> ((\<forall>x \<in> set xs. \<not> isl (fetched st rf lib (fst x))) \<longrightarrow> tmpdirs w' = tmpdirs w)
       \<and> (tmpdirs w' = tmpdirs w
            \<or> isl r \<and> (\<exists>d. d \<notin> set (tmpdirs w) \<and> tmpdirs w' = tmpdirs w @ [d]))"
  using assms
proof (induction xs arbitrary: w fl pr)
  case Nil
  then show ?case by simp
next
  case (Cons x xs)
  obtain w1 r1 where i: "ingest st rf lib x w fl pr = (w1, r1)"
    by (cases "ingest st rf lib x w fl pr")
  note t = ingest_tmpdirs [OF Cons.prems(1) i]
  show ?case
  proof (cases "isl (fetched st rf lib (fst x))")
    case True
    then have l: "tmpdirs w1 = tmpdirs w @ [next_tmp w]" "isl r1" using t(3) by simp_all
    then obtain e where "r1 = Inl e" by (cases r1) auto
    then have "w' = w1" "r = Inl e" using Cons.prems(2) i by simp_all
    moreover have "next_tmp w \<notin> set (tmpdirs w)" using Cons.prems(1) by (auto simp: fresh_def)
    ultimately show ?thesis using l True by auto
  next
    case False
    then have k: "tmpdirs w1 = tmpdirs w" "fresh w1" using t(2) by simp_all
    show ?thesis
    proof (cases r1)
      case (Inl e)
      then have "w' = w1" "r = Inl e" using Cons.prems(2) i by simp_all
      then show ?thesis using k by simp
    next
      case (Inr v)
      obtain fl1 pr1 where v: "v = (fl1, pr1)" by (cases v)
      have "ingest_loop st rf lib xs w1 fl1 pr1 = (w', r)"
        using Cons.prems(2) i Inr v by simp
      from Cons.IH [OF k(2) this] show ?thesis using k(1) False by auto
    qed
  qed
qed

lemma update_repo_world:
  assumes "update_repo st rf lib w = (w', r)"
  shows "w' = w \<and> isl r
       \<or> (\<exists>fl pr xs. ingest_loop st rf lib xs w fl pr = (w', r))"
proof (cases "load_index st lib")
  case (Inl e)
  then have "w' = w" "r = Inl e" using assms by (simp_all add: update_repo_def)
  then show ?thesis by simp
next
  case (Inr v)
  obtain fl pr where v: "v = (fl, pr)" by (cases v)
  show ?thesis
  proof (cases "files_to_add st lib pr")
    case (Inl e)
    then have "w' = w" "r = Inl e"
      using assms \<open>load_index st lib = Inr v\<close> v by (simp_all add: update_repo_def reconcile_def)
    then show ?thesis by simp
  next
    case (Inr xs)
    then have "ingest_loop st rf lib (set_order lib xs) w fl pr = (w', r)"
      using assms \<open>load_index st lib = Inr v\<close> v by (simp add: update_repo_def reconcile_def)
    then show ?thesis by blast
  qed
qed

lemmas run_simps = update_repo_def load_index_def reconcile_def files_to_add_def
  storage_of_def storage_down_def pylib_of_def rpmfile_of_def world0_def ebind_def
  rpm_match_def LF_def set_add_def set_diff_def ingest_def mkdtemp_def print_def rmtree_def
  file_checksum_def no_reader_def reader_of_def Let_def

text \<open>
  Claim C6 says that the scratch directory is removed on every exit path. One archive in
  storage and an empty index: when the download raises, and when the archive reader
  raises, \<^verbatim>\<open>update_repo\<close> ends with that exception and the directory 0 is still there.
\<close>

theorem scratch_leak_counterexample:
  "update_repo (storage_down [(''a.rpm'', 100, ''bytes'')]) (rpmfile_of no_reader)
       (pylib_of no_parser) world0
     = (\<lparr>next_tmp = 1, tmpdirs = [0], stdout = [adding ''a.rpm'']\<rparr>,
        Inl (Failure ''connection lost''))
   \<and> update_repo (storage_of [(''a.rpm'', 100, ''bytes'')]) (rpmfile_of no_reader)
       (pylib_of no_parser) world0
     = (\<lparr>next_tmp = 1, tmpdirs = [0], stdout = [adding ''a.rpm'']\<rparr>,
        Inl (Failure ''not an archive''))"
  by (simp add: run_simps)

text \<open>
  Claim C6, amended. \<^verbatim>\<open>shutil.rmtree\<close> is the statement after the download, the header
  parsing and the checksum, with no \<^verbatim>\<open>try\<close> around them. For one archive, in a world
  whose scratch directories were all made by \<^verbatim>\<open>mkdtemp\<close>: when the three steps succeed the
  directory is gone before the records are derived, and the set of directories is as
  before; when one of them raises, that exception ends the run and the directory made
  for this archive remains. For the loop and for \<^verbatim>\<open>update_repo\<close>: a run that returns
  leaves the directories as they were, and a run that raises leaves them as they were or
  with the one directory of the archive whose step raised.
\<close>

theorem scratch_directory:
  assumes "fresh w"
  shows "(\<forall>w' r. ingest st rf lib x w fl pr = (w', r) \<longrightarrow>
            (\<forall>h s. fetched st rf lib (fst x) = Inr (h, s) \<longrightarrow>
               tmpdirs w' = tmpdirs w \<and> r = merged rf h s x fl pr)
          \<and> (\<forall>e. fetched st rf lib (fst x) = Inl e \<longrightarrow>
               tmpdirs w' = tmpdirs w @ [next_tmp w] \<and> next_tmp w \<notin> set (tmpdirs w)
               \<and> r = Inl e))
       \<and> (\<forall>w' r. ingest_loop st rf lib xs w fl pr = (w', r) \<longrightarrow>
            (\<not> isl r \<longrightarrow> tmpdirs w' = tmpdirs w)
          \<and> ((\<forall>x \<in> set xs. \<not> isl (fetched st rf lib (fst x))) \<longrightarrow> tmpdirs w' = tmpdirs w)
          \<and> (tmpdirs w' = tmpdirs w
               \<or> isl r \<and> (\<exists>d. d \<notin> set (tmpdirs w) \<and> tmpdirs w' = tmpdirs w @ [d])))
       \<and> (\<forall>w' r. update_repo st rf lib w = (w', r) \<longrightarrow>
            (\<not> isl r \<longrightarrow> tmpdirs w' = tmpdirs w)
          \<and> (tmpdirs w' = tmpdirs w
               \<or> isl r \<and> (\<exists>d. d \<notin> set (tmpdirs w) \<and> tmpdirs w' = tmpdirs w @ [d])))"
proof -
  have a: "(\<forall>h s. fetched st rf lib (fst x) = Inr (h, s) \<longrightarrow>
               tmpdirs w' = tmpdirs w \<and> r = merged rf h s x fl pr)
          \<and> (\<forall>e. fetched st rf lib (fst x) = Inl e \<longrightarrow>
               tmpdirs w' = tmpdirs w @ [next_tmp w] \<and> next_tmp w \<notin> set (tmpdirs w)
               \<and> r = Inl e)"
    if i: "ingest st rf lib x w fl pr = (w', r)" for w' r
  proof -
    have "tmpdirs w' = tmpdirs w \<and> r = merged rf h s x fl pr"
      if f: "fetched st rf lib (fst x) = Inr (h, s)" for h s
      using i ingest_fetch_ok [OF f, of w fl pr] fresh_removeAll [OF assms] by auto
    moreover have "tmpdirs w' = tmpdirs w @ [next_tmp w] \<and> next_tmp w \<notin> set (tmpdirs w)
               \<and> r = Inl e"
      if f: "fetched st rf lib (fst x) = Inl e" for e
      using i ingest_fetch_fails [OF f, of w fl pr] assms by (auto simp: fresh_def)
    ultimately show ?thesis by blast
  qed
  have b: "(\<not> isl r \<longrightarrow> tmpdirs w' = tmpdirs w)
          \<and> ((\<forall>x \<in> set xs. \<not> isl (fetched st rf lib (fst x))) \<longrightarrow> tmpdirs w' = tmpdirs w)
          \<and> (tmpdirs w' = tmpdirs w
               \<or> isl r \<and> (\<exists>d. d \<notin> set (tmpdirs w) \<and> tmpdirs w' = tmpdirs w @ [d]))"
    if "ingest_loop st rf lib xs w fl pr = (w', r)" for w' r
    using ingest_loop_tmpdirs [OF assms that] .
  have c: "(\<not> isl r \<longrightarrow> tmpdirs w' = tmpdirs w)
          \<and> (tmpdirs w' = tmpdirs w
               \<or> isl r \<and> (\<exists>d. d \<notin> set (tmpdirs w) \<and> tmpdirs w' = tmpdirs w @ [d]))"
    if u: "update_repo st rf lib w = (w', r)" for w' r
  proof -
    from update_repo_world [OF u]
    consider "w' = w \<and> isl r"
      | fl pr xs where "ingest_loop st rf lib xs w fl pr = (w', r)"
      by blast
    then show ?thesis
    proof cases
      case 1
      then show ?thesis by simp
    next
      case 2
      from ingest_loop_tmpdirs [OF assms 2] show ?thesis by blast
    qed
  qed
  show ?thesis using a b c by blast
qed

lemma merged_foo:
  "\<not> isl (merged (rpmfile_of r) header_foo s x fl pr)"
proof -
  have "\<not> isl (header_to_primary (rpmfile_of r) header_foo s (snd x) (fst x))"
    "\<not> isl (header_to_filelists header_foo s)"
    unfolding isl_header_to_filelists isl_header_to_primary
    by (simp_all add: indexes_ok_def tables_present_def versions_ok_def provides_entries_def
        requires_entries_def obsoletes_entries_def zip3_def header_simps get_list_def
        in_range_def)
  then obtain n1 p n2 f where
    "header_to_primary (rpmfile_of r) header_foo s (snd x) (fst x) = Inr (n1, p)"
    "header_to_filelists header_foo s = Inr (n2, f)"
    by (metis isl_def sum.collapse(2) surj_pair)
  then show ?thesis by (simp add: merged_def ebind_def)
qed

lemma run_foo:
  "update_repo (storage_of [(''a.rpm'', 100, ''bytes'')])
       (rpmfile_of (reader_of [(''bytes'', header_foo)])) (pylib_of no_parser) world0
     = (\<lparr>next_tmp = 1, tmpdirs = [], stdout = [adding ''a.rpm'']\<rparr>,
        merged (rpmfile_of (reader_of [(''bytes'', header_foo)])) header_foo ''sha256:bytes''
          (''a.rpm'', 100) [] [])"
proof -
  let ?st = "storage_of [(''a.rpm'', 100, ''bytes'')]"
  let ?rf = "rpmfile_of (reader_of [(''bytes'', header_foo)])"
  let ?lib = "pylib_of no_parser"
  have f: "fetched ?st ?rf ?lib (fst (''a.rpm'', 100 :: rat)) = Inr (header_foo, ''sha256:bytes'')"
    by (simp add: fetched_def run_simps)
  have i: "ingest ?st ?rf ?lib (''a.rpm'', 100) world0 [] []
      = (\<lparr>next_tmp = 1, tmpdirs = [], stdout = [adding ''a.rpm'']\<rparr>,
         merged ?rf header_foo ''sha256:bytes'' (''a.rpm'', 100) [] [])"
    unfolding ingest_fetch_ok [OF f] by (simp add: world0_def)
  have t: "files_to_add ?st ?lib [] = Inr [(''a.rpm'', 100)]"
    by (simp add: run_simps)
  have l: "load_index ?st ?lib = Inr ([], [])"
    by (simp add: run_simps)
  have so: "set_order ?lib xs = xs" for xs
    by (simp add: pylib_of_def)
  show ?thesis
    by (simp add: update_repo_def reconcile_def l t so i split: sum.splits)
qed

text \<open>
  The theorem at a run that ingests one archive, and at the archive whose download
  raises.
\<close>

theorem scratch_directory_witness:
  "fresh world0
   \<and> \<not> isl (snd (update_repo (storage_of [(''a.rpm'', 100, ''bytes'')])
              (rpmfile_of (reader_of [(''bytes'', header_foo)])) (pylib_of no_parser) world0))
   \<and> tmpdirs (fst (update_repo (storage_of [(''a.rpm'', 100, ''bytes'')])
              (rpmfile_of (reader_of [(''bytes'', header_foo)])) (pylib_of no_parser) world0)) = []
   \<and> isl (fetched (storage_down [(''a.rpm'', 100, ''bytes'')]) (rpmfile_of no_reader)
            (pylib_of no_parser) ''a.rpm'')
   \<and> tmpdirs (fst (ingest (storage_down [(''a.rpm'', 100, ''bytes'')]) (rpmfile_of no_reader)
              (pylib_of no_parser) (''a.rpm'', 100) world0 [] [])) = [0]"
proof -
  let ?st = "storage_of [(''a.rpm'', 100, ''bytes'')]"
  let ?down = "storage_down [(''a.rpm'', 100, ''bytes'')]"
  let ?rf = "rpmfile_of (reader_of [(''bytes'', header_foo)])"
  let ?lib = "pylib_of no_parser"
  have fr: "fresh world0" by (simp add: fresh_def world0_def)
  note t = scratch_directory [OF fr]
  obtain w' r where u: "update_repo ?st ?rf ?lib world0 = (w', r)"
    by (cases "update_repo ?st ?rf ?lib world0")
  have ok: "\<not> isl r"
    using u merged_foo unfolding run_foo by auto
  have "\<not> isl r \<longrightarrow> tmpdirs w' = tmpdirs world0"
    using t [of ?st ?rf ?lib, THEN conjunct2, THEN conjunct2, rule_format, OF u] by blast
  then have a: "tmpdirs w' = []" using ok by (simp add: world0_def)
  have fd: "fetched ?down (rpmfile_of no_reader) ?lib (fst (''a.rpm'', 100 :: rat))
      = Inl (Failure ''connection lost'')"
    by (simp add: fetched_def run_simps)
  obtain w2 r2 where i: "ingest ?down (rpmfile_of no_reader) ?lib (''a.rpm'', 100) world0 [] [] = (w2, r2)"
    by (cases "ingest ?down (rpmfile_of no_reader) ?lib (''a.rpm'', 100) world0 [] []")
  have "tmpdirs w2 = tmpdirs world0 @ [next_tmp world0]"
    using t [of ?down "rpmfile_of no_reader" ?lib "(''a.rpm'', 100)" "[]" "[]", THEN conjunct1,
        rule_format, OF i, THEN conjunct2, rule_format, OF fd]
    by blast
  then have b: "tmpdirs w2 = [0]" by (simp add: world0_def)
  show ?thesis using fr u ok a fd i b by simp
qed

section \<open>The diff and the merge\<close>






















end
